theory Spec2Isabelle
  imports Main
begin

section \<open>The blob cache of buildah (package blobcache)\<close>

text \<open>
  The package wraps an image reference, source and destination of the image library
  and keeps copies of blobs and manifests in a list of directories. The embedding
  follows the Go source function by function. What the package calls but does not
  define (the file system, the path library, the wrapped source and destination) is
  explicit: the file system is a table from paths to nodes, every call of the
  operating system appends an event to a trace, and the wrapped transport is a
  record of functions over a state of its own.
\<close>

subsection \<open>Bytes, errors and streams\<close>

text \<open>A byte is a HOL character (8 bits); a Go string and a byte slice are lists of them.\<close>

type_synonym bytes = "char list"

datatype errno = ENOENT | EACCES | EEXIST | ENOSPC | EIO

text \<open>
  A Go error value: an error of a system call, any other error (of the wrapped
  transport, of \<^verbatim>\<open>errors.Errorf\<close>), or an error wrapped with a message by
  \<^verbatim>\<open>errors.Wrapf\<close>. A message is its format string and the arguments printed
  into it (but for the image name of the reference and the printed error value,
  which are left out). The value nil is \<open>None\<close> of \<open>error option\<close>.
\<close>

datatype error = Errno errno | Failure string "string list" | Wrapped string "string list" error

text \<open>\<^verbatim>\<open>errors.Wrapf(err, ...)\<close> of pkg/errors: nil stays nil.\<close>

definition Wrapf :: "error option \<Rightarrow> string \<Rightarrow> string list \<Rightarrow> error option" where
  "Wrapf err format args = (case err of None \<Rightarrow> None | Some e \<Rightarrow> Some (Wrapped format args e))"

text \<open>
  \<^verbatim>\<open>os.IsNotExist(err)\<close>: true for the not-found error of a system call only;
  false for nil and for an error wrapped by pkg/errors.
\<close>

definition IsNotExist :: "error option \<Rightarrow> bool" where
  "IsNotExist err = (err = Some (Errno ENOENT))"

text \<open>
  What a reader of an \<^verbatim>\<open>io.Reader\<close> observes when it reads to the end: the bytes,
  then end of file (\<open>None\<close>) or an error.
\<close>

record stream =
  s_data :: bytes
  s_err :: "error option"

definition bytes_stream :: "bytes \<Rightarrow> stream" where
  "bytes_stream b = \<lparr>s_data = b, s_err = None\<rparr>"

text \<open>\<^verbatim>\<open>types.BlobInfo\<close>: the digest (empty when unknown) and the size (-1 when unknown).\<close>

record BlobInfo =
  Digest :: string
  Size :: int

subsection \<open>The file system and the trace of effects\<close>

text \<open>
  A node is what the two reading calls return on a path: \<^verbatim>\<open>os.Stat\<close> gives an error
  or a size, \<^verbatim>\<open>os.Open\<close> an error or the stream of the opened file. The two answers
  are independent, which covers a file that another process removes or replaces
  between the two calls. A regular file answers both from its bytes.
\<close>

datatype node = Node (n_stat: "errno + int") (n_open: "errno + stream")

definition File :: "bytes \<Rightarrow> node" where
  "File b = Node (Inr (int (length b))) (Inr (bytes_stream b))"

text \<open>The calls the package makes on the wrapped source and destination.\<close>

datatype call =
    PutBlobCall stream BlobInfo bool
  | HasBlobCall BlobInfo
  | ReapplyBlobCall BlobInfo
  | GetManifestCall "string option"
  | GetBlobCall BlobInfo

text \<open>
  The effects, in the order they happen. A call of the wrapped transport is recorded
  when it returns, with the error it returned; the writes that a tee reader makes
  while the wrapped destination reads are recorded as one write before that return.
\<close>

datatype event =
    EvStat string
  | EvOpen string
  | EvReadFile string
  | EvTempFile string string "errno + string"
  | EvWrite string bytes "errno option"
  | EvRename string string "errno option"
  | EvRemove string "errno option"
  | EvClose string
  | EvLog string "string list"
  | EvInner call "error option"

record 'i world =
  files :: "string \<rightharpoonup> node"
  trace :: "event list"
  inner :: 'i

definition emit :: "event \<Rightarrow> 'i world \<Rightarrow> 'i world" where
  "emit e w = w\<lparr>trace := trace w @ [e]\<rparr>"

text \<open>
  The run-time environment of one execution: \<^verbatim>\<open>filepath.Join\<close> of a directory and a
  name, \<^verbatim>\<open>manifest.GuessMIMEType\<close>, the random part of the name that
  \<^verbatim>\<open>ioutil.TempFile\<close> picks, and the faults of the writing calls: whether creating
  a temporary file fails, after how many bytes a write to it fails (and with what),
  whether renaming and removing fail.
\<close>

record sys =
  Join :: "string \<Rightarrow> string \<Rightarrow> string"
  GuessMIMEType :: "bytes \<Rightarrow> string"
  temp_suffix :: string
  tempfile_fault :: "errno option"
  write_fault :: "(nat \<times> errno) option"
  rename_fault :: "errno option"
  remove_fault :: "errno option"

definition os_Stat :: "string \<Rightarrow> 'i world \<Rightarrow> (int \<times> error option) \<times> 'i world" where
  "os_Stat name w =
     ((case files w name of
         None \<Rightarrow> (0, Some (Errno ENOENT))
       | Some n \<Rightarrow> (case n_stat n of Inl e \<Rightarrow> (0, Some (Errno e)) | Inr sz \<Rightarrow> (sz, None))),
      emit (EvStat name) w)"

definition os_Open :: "string \<Rightarrow> 'i world \<Rightarrow> (stream option \<times> error option) \<times> 'i world" where
  "os_Open name w =
     ((case files w name of
         None \<Rightarrow> (None, Some (Errno ENOENT))
       | Some n \<Rightarrow> (case n_open n of Inl e \<Rightarrow> (None, Some (Errno e)) | Inr f \<Rightarrow> (Some f, None))),
      emit (EvOpen name) w)"

text \<open>\<^verbatim>\<open>ioutil.ReadFile\<close>: the open fails, or a read fails, or all the bytes are returned.\<close>

definition ReadFile :: "string \<Rightarrow> 'i world \<Rightarrow> (bytes \<times> error option) \<times> 'i world" where
  "ReadFile name w =
     ((case files w name of
         None \<Rightarrow> ([], Some (Errno ENOENT))
       | Some n \<Rightarrow>
           (case n_open n of
              Inl e \<Rightarrow> ([], Some (Errno e))
            | Inr f \<Rightarrow> (case s_err f of None \<Rightarrow> (s_data f, None) | Some e \<Rightarrow> ([], Some e)))),
      emit (EvReadFile name) w)"

subsection \<open>The content addresser\<close>

definition makeFilename :: "string \<Rightarrow> bool \<Rightarrow> string" where
  "makeFilename blobSum isConfig = (if isConfig then blobSum @ ''.config'' else blobSum)"

subsection \<open>blobCacheReference.HasBlob\<close>

text \<open>
  The two nested loops, each with its early returns: \<open>Some r\<close> is a return of \<open>r\<close> from
  inside the loop, \<open>None\<close> is the loop running to its end.
\<close>

fun HasBlob_variants ::
  "sys \<Rightarrow> BlobInfo \<Rightarrow> string \<Rightarrow> bool list \<Rightarrow> 'i world
     \<Rightarrow> (bool \<times> int \<times> error option) option \<times> 'i world" where
  "HasBlob_variants sy blobinfo directory [] w = (None, w)"
| "HasBlob_variants sy blobinfo directory (isConfig # rest) w =
     (let filename = Join sy directory (makeFilename (Digest blobinfo) isConfig) in
      case os_Stat filename w of
        ((fileInfo, err), w1) \<Rightarrow>
          if err = None \<and> (Size blobinfo = -1 \<or> Size blobinfo = fileInfo)
          then (Some (True, fileInfo, None), w1)
          else if \<not> IsNotExist err
          then (Some (False, -1, Wrapf err ''error checking size of %q'' [filename]), w1)
          else HasBlob_variants sy blobinfo directory rest w1)"

fun HasBlob_dirs ::
  "sys \<Rightarrow> BlobInfo \<Rightarrow> string list \<Rightarrow> 'i world
     \<Rightarrow> (bool \<times> int \<times> error option) option \<times> 'i world" where
  "HasBlob_dirs sy blobinfo [] w = (None, w)"
| "HasBlob_dirs sy blobinfo (directory # rest) w =
     (case HasBlob_variants sy blobinfo directory [False, True] w of
        (Some r, w1) \<Rightarrow> (Some r, w1)
      | (None, w1) \<Rightarrow> HasBlob_dirs sy blobinfo rest w1)"

definition HasBlob ::
  "sys \<Rightarrow> string list \<Rightarrow> BlobInfo \<Rightarrow> 'i world \<Rightarrow> (bool \<times> int \<times> error option) \<times> 'i world" where
  "HasBlob sy directories blobinfo w =
     (if Digest blobinfo = [] then ((False, -1, None), w)
      else case HasBlob_dirs sy blobinfo directories w of
             (Some r, w1) \<Rightarrow> (r, w1)
           | (None, w1) \<Rightarrow> ((False, -1, None), w1))"

subsection \<open>The wrapped source and destination\<close>

text \<open>
  The wrapped \<^verbatim>\<open>types.ImageSource\<close> and \<^verbatim>\<open>types.ImageDestination\<close> are
  interfaces: any implementation may stand behind them. Each method is a function of
  its arguments and of the state of the wrapped transport. The reply of PutBlob says
  how far the destination reads: it reads until it has taken \<open>p_read\<close> bytes or the
  stream ends, so \<open>p_read\<close> beyond the length of the stream means that it saw the end
  of the stream (end of file, or the error).
\<close>

record put_reply =
  p_read :: nat
  p_info :: BlobInfo
  p_err :: "error option"

record 'i ImageSource =
  src_GetManifest :: "string option \<Rightarrow> 'i \<Rightarrow> (bytes \<times> string \<times> error option) \<times> 'i"
  src_GetBlob :: "BlobInfo \<Rightarrow> 'i \<Rightarrow> (stream option \<times> int \<times> error option) \<times> 'i"

record 'i ImageDestination =
  dest_PutBlob :: "stream \<Rightarrow> BlobInfo \<Rightarrow> bool \<Rightarrow> 'i \<Rightarrow> put_reply \<times> 'i"
  dest_HasBlob :: "BlobInfo \<Rightarrow> 'i \<Rightarrow> (bool \<times> int \<times> error option) \<times> 'i"
  dest_ReapplyBlob :: "BlobInfo \<Rightarrow> 'i \<Rightarrow> (BlobInfo \<times> error option) \<times> 'i"

text \<open>
  A Go reader handed to the wrapped destination: the caller's reader, or the reader
  that \<^verbatim>\<open>io.TeeReader(r, tempfile)\<close> builds, which writes every byte read to the
  file as well.
\<close>

datatype reader = Reader stream | TeeReader stream string

text \<open>
  What a reader yields. A tee reader reports a failed write as a read error: with a
  write fault after \<open>n\<close> bytes the destination sees the \<open>n\<close> bytes that were written,
  then the error of the write.
\<close>

fun yields :: "sys \<Rightarrow> reader \<Rightarrow> stream" where
  "yields sy (Reader r) = r"
| "yields sy (TeeReader r tempfile) =
     (case write_fault sy of
        None \<Rightarrow> r
      | Some (n, e) \<Rightarrow>
          if n < length (s_data r)
          then \<lparr>s_data = take n (s_data r), s_err = Some (Errno e)\<rparr>
          else r)"

text \<open>Whether a destination that reads \<open>k\<close> bytes far runs into the write fault.\<close>

definition tee_failure :: "sys \<Rightarrow> stream \<Rightarrow> nat \<Rightarrow> errno option" where
  "tee_failure sy r k =
     (case write_fault sy of
        None \<Rightarrow> None
      | Some (n, e) \<Rightarrow> if n < length (s_data r) \<and> n < k then Some e else None)"

definition source_GetManifest ::
  "'i ImageSource \<Rightarrow> string option \<Rightarrow> 'i world \<Rightarrow> (bytes \<times> string \<times> error option) \<times> 'i world" where
  "source_GetManifest s instanceDigest w =
     (case src_GetManifest s instanceDigest (inner w) of
        (r, i) \<Rightarrow> (r, emit (EvInner (GetManifestCall instanceDigest) (snd (snd r))) (w\<lparr>inner := i\<rparr>)))"

definition source_GetBlob ::
  "'i ImageSource \<Rightarrow> BlobInfo \<Rightarrow> 'i world \<Rightarrow> (stream option \<times> int \<times> error option) \<times> 'i world" where
  "source_GetBlob s blobinfo w =
     (case src_GetBlob s blobinfo (inner w) of
        (r, i) \<Rightarrow> (r, emit (EvInner (GetBlobCall blobinfo) (snd (snd r))) (w\<lparr>inner := i\<rparr>)))"

definition destination_HasBlob ::
  "'i ImageDestination \<Rightarrow> BlobInfo \<Rightarrow> 'i world \<Rightarrow> (bool \<times> int \<times> error option) \<times> 'i world" where
  "destination_HasBlob d info w =
     (case dest_HasBlob d info (inner w) of
        (r, i) \<Rightarrow> (r, emit (EvInner (HasBlobCall info) (snd (snd r))) (w\<lparr>inner := i\<rparr>)))"

definition destination_ReapplyBlob ::
  "'i ImageDestination \<Rightarrow> BlobInfo \<Rightarrow> 'i world \<Rightarrow> (BlobInfo \<times> error option) \<times> 'i world" where
  "destination_ReapplyBlob d info w =
     (case dest_ReapplyBlob d info (inner w) of
        (r, i) \<Rightarrow> (r, emit (EvInner (ReapplyBlobCall info) (snd r)) (w\<lparr>inner := i\<rparr>)))"

text \<open>
  The wrapped PutBlob on a reader. The bytes the destination takes from a tee reader
  reach the temporary file before the call returns.
\<close>

definition destination_PutBlob ::
  "sys \<Rightarrow> 'i ImageDestination \<Rightarrow> reader \<Rightarrow> BlobInfo \<Rightarrow> bool \<Rightarrow> 'i world \<Rightarrow> put_reply \<times> 'i world" where
  "destination_PutBlob sy d rd info isConfig w =
     (case dest_PutBlob d (yields sy rd) info isConfig (inner w) of
        (reply, i) \<Rightarrow>
          (let written = take (p_read reply) (s_data (yields sy rd));
               w1 = (case rd of
                       Reader r \<Rightarrow> w
                     | TeeReader r tempfile \<Rightarrow>
                         emit (EvWrite tempfile written (tee_failure sy r (p_read reply)))
                           (w\<lparr>files := (files w)(tempfile \<mapsto> File written)\<rparr>))
           in (reply,
               emit (EvInner (PutBlobCall (yields sy rd) info isConfig) (p_err reply))
                 (w1\<lparr>inner := i\<rparr>))))"

subsection \<open>blobCacheSource\<close>

fun GetManifest_dirs ::
  "sys \<Rightarrow> string \<Rightarrow> string list \<Rightarrow> 'i world
     \<Rightarrow> (bytes \<times> string \<times> error option) option \<times> 'i world" where
  "GetManifest_dirs sy instanceDigest [] w = (None, w)"
| "GetManifest_dirs sy instanceDigest (directory # rest) w =
     (let filename = Join sy directory (makeFilename instanceDigest False) in
      case ReadFile filename w of
        ((manifestBytes, err), w1) \<Rightarrow>
          if err = None
          then (Some (manifestBytes, GuessMIMEType sy manifestBytes, None), w1)
          else if \<not> IsNotExist err
          then (Some ([], [], Wrapf err ''error checking for manifest file %q'' [filename]), w1)
          else GetManifest_dirs sy instanceDigest rest w1)"

definition GetManifest ::
  "sys \<Rightarrow> 'i ImageSource \<Rightarrow> string list \<Rightarrow> string option \<Rightarrow> 'i world
     \<Rightarrow> (bytes \<times> string \<times> error option) \<times> 'i world" where
  "GetManifest sy s dirs instanceDigest w =
     (case instanceDigest of
        None \<Rightarrow> source_GetManifest s instanceDigest w
      | Some dg \<Rightarrow>
          (case GetManifest_dirs sy dg dirs w of
             (Some r, w1) \<Rightarrow> (r, w1)
           | (None, w1) \<Rightarrow> source_GetManifest s instanceDigest w1))"

fun GetBlob_variants ::
  "sys \<Rightarrow> BlobInfo \<Rightarrow> int \<Rightarrow> string \<Rightarrow> bool list \<Rightarrow> 'i world
     \<Rightarrow> (stream option \<times> int \<times> error option) option \<times> 'i world" where
  "GetBlob_variants sy blobinfo sz directory [] w = (None, w)"
| "GetBlob_variants sy blobinfo sz directory (isConfig # rest) w =
     (let filename = Join sy directory (makeFilename (Digest blobinfo) isConfig) in
      case os_Open filename w of
        ((f, err), w1) \<Rightarrow>
          if err = None then (Some (f, sz, None), w1)
          else if \<not> IsNotExist err
          then (Some (None, -1,
                  Wrapf err ''error checking for cache file %q'' [Join sy directory filename]), w1)
          else GetBlob_variants sy blobinfo sz directory rest w1)"

fun GetBlob_dirs ::
  "sys \<Rightarrow> BlobInfo \<Rightarrow> int \<Rightarrow> string list \<Rightarrow> 'i world
     \<Rightarrow> (stream option \<times> int \<times> error option) option \<times> 'i world" where
  "GetBlob_dirs sy blobinfo sz [] w = (None, w)"
| "GetBlob_dirs sy blobinfo sz (directory # rest) w =
     (case GetBlob_variants sy blobinfo sz directory [False, True] w of
        (Some r, w1) \<Rightarrow> (Some r, w1)
      | (None, w1) \<Rightarrow> GetBlob_dirs sy blobinfo sz rest w1)"

definition GetBlob ::
  "sys \<Rightarrow> 'i ImageSource \<Rightarrow> string list \<Rightarrow> BlobInfo \<Rightarrow> 'i world
     \<Rightarrow> (stream option \<times> int \<times> error option) \<times> 'i world" where
  "GetBlob sy s dirs blobinfo w =
     (case HasBlob sy dirs blobinfo w of
        ((present, sz, err), w1) \<Rightarrow>
          if err \<noteq> None then ((None, -1, err), w1)
          else
            (case (if present then GetBlob_dirs sy blobinfo sz dirs w1 else (None, w1)) of
               (Some r, w2) \<Rightarrow> (r, w2)
             | (None, w2) \<Rightarrow>
                 (case source_GetBlob s blobinfo w2 of
                    ((rc, sz', err'), w3) \<Rightarrow>
                      if err' \<noteq> None
                      then ((rc, sz', Wrapf err' ''error reading blob from source image %q'' []), w3)
                      else ((rc, sz', None), w3))))"

subsection \<open>blobCacheDestination\<close>

text \<open>
  \<^verbatim>\<open>ioutil.TempFile(dir, pattern)\<close> creates a new, empty file whose name is the
  pattern followed by a random string. It fails when the environment says so, and
  when the name it picked is taken.
\<close>

definition TempFile ::
  "sys \<Rightarrow> string \<Rightarrow> string \<Rightarrow> 'i world \<Rightarrow> (string \<times> error option) \<times> 'i world" where
  "TempFile sy dir pattern w =
     (let name = Join sy dir (pattern @ temp_suffix sy) in
      case (case tempfile_fault sy of
              Some e \<Rightarrow> Some e
            | None \<Rightarrow> if files w name \<noteq> None then Some EEXIST else None) of
        Some e \<Rightarrow> (([], Some (Errno e)), emit (EvTempFile dir pattern (Inl e)) w)
      | None \<Rightarrow>
          ((name, None),
           emit (EvTempFile dir pattern (Inr name)) (w\<lparr>files := (files w)(name \<mapsto> File [])\<rparr>)))"

definition os_Rename :: "sys \<Rightarrow> string \<Rightarrow> string \<Rightarrow> 'i world \<Rightarrow> error option \<times> 'i world" where
  "os_Rename sy oldpath newpath w =
     (case (case rename_fault sy of
              Some e \<Rightarrow> Some e
            | None \<Rightarrow> if files w oldpath = None then Some ENOENT else None) of
        Some e \<Rightarrow> (Some (Errno e), emit (EvRename oldpath newpath (Some e)) w)
      | None \<Rightarrow>
          (None,
           emit (EvRename oldpath newpath None)
             (w\<lparr>files := ((files w)(oldpath := None))(newpath := files w oldpath)\<rparr>)))"

definition os_Remove :: "sys \<Rightarrow> string \<Rightarrow> 'i world \<Rightarrow> error option \<times> 'i world" where
  "os_Remove sy name w =
     (case (case remove_fault sy of
              Some e \<Rightarrow> Some e
            | None \<Rightarrow> if files w name = None then Some ENOENT else None) of
        Some e \<Rightarrow> (Some (Errno e), emit (EvRemove name (Some e)) w)
      | None \<Rightarrow> (None, emit (EvRemove name None) (w\<lparr>files := (files w)(name := None)\<rparr>)))"

text \<open>
  The deferred function of PutBlob. It runs after the return statement has fixed the
  results, which are unnamed: the error it assigns when the rename fails is a
  variable nobody reads afterwards.
\<close>

definition PutBlob_deferred ::
  "sys \<Rightarrow> BlobInfo \<Rightarrow> string \<Rightarrow> string \<Rightarrow> error option \<Rightarrow> 'i world \<Rightarrow> 'i world" where
  "PutBlob_deferred sy inputInfo tempfile filename err w =
     emit (EvClose tempfile)
       (if err = None
        then (case os_Rename sy tempfile filename w of (err1, w1) \<Rightarrow> w1)
        else (case os_Remove sy tempfile w of
                (err2, w1) \<Rightarrow>
                  if err2 \<noteq> None
                  then emit (EvLog ''error cleaning up temporary file %q for blob %q: %v''
                         [tempfile, Digest inputInfo]) w1
                  else w1))"

definition PutBlob_return :: "put_reply \<Rightarrow> BlobInfo \<times> error option" where
  "PutBlob_return reply =
     (if p_err reply \<noteq> None
      then (p_info reply, Wrapf (p_err reply) ''error storing blob to image destination for cache %q'' [])
      else (p_info reply, None))"

text \<open>
  PutBlob. \<open>None\<close> is the run-time panic of \<^verbatim>\<open>directories[0]\<close> on an empty list,
  which NewBlobCache excludes.
\<close>

definition PutBlob ::
  "sys \<Rightarrow> 'i ImageDestination \<Rightarrow> string list \<Rightarrow> stream \<Rightarrow> BlobInfo \<Rightarrow> bool \<Rightarrow> 'i world
     \<Rightarrow> ((BlobInfo \<times> error option) \<times> 'i world) option" where
  "PutBlob sy d dirs strm inputInfo isConfig w =
     (if Digest inputInfo \<noteq> [] then
        (case dirs of
           [] \<Rightarrow> None
         | d0 # ds \<Rightarrow>
             (let directory = (if d0 = [] then ''.'' else d0);
                  filename = Join sy directory (makeFilename (Digest inputInfo) isConfig)
              in case TempFile sy directory (makeFilename (Digest inputInfo) isConfig) w of
                   ((tempfile, err), w1) \<Rightarrow>
                     if err = None then
                       (case destination_PutBlob sy d (TeeReader strm tempfile) inputInfo isConfig w1 of
                          (reply, w2) \<Rightarrow>
                            Some (PutBlob_return reply,
                                  PutBlob_deferred sy inputInfo tempfile filename (p_err reply) w2))
                     else
                       (case destination_PutBlob sy d (Reader strm) inputInfo isConfig
                               (emit (EvLog ''error while creating a temporary file under %q to hold blob %q: %v''
                                  [d0, Digest inputInfo]) w1) of
                          (reply, w2) \<Rightarrow> Some (PutBlob_return reply, w2))))
      else
        (case destination_PutBlob sy d (Reader strm) inputInfo isConfig w of
           (reply, w1) \<Rightarrow> Some (PutBlob_return reply, w1)))"

text \<open>
  The wrapped PutBlob may also panic instead of returning. The panic unwinds through
  PutBlob and runs the deferred function on its way. The assignment
  \<^verbatim>\<open>newBlobInfo, err := d.destination.PutBlob(...)\<close> has not happened then, so the
  \<^verbatim>\<open>err\<close> the deferred function tests is still the one \<^verbatim>\<open>ioutil.TempFile\<close> returned,
  which is nil. PutBlob returns nothing in such an execution: the functions below
  give the world the panic leaves behind, for a wrapped destination that has taken
  \<open>k\<close> bytes from its reader and brought its own state to \<open>st\<close> when it panics.
\<close>

definition destination_PutBlob_panic :: "sys \<Rightarrow> reader \<Rightarrow> nat \<Rightarrow> 'i \<Rightarrow> 'i world \<Rightarrow> 'i world" where
  "destination_PutBlob_panic sy rd k st w =
     (let written = take k (s_data (yields sy rd));
          w1 = (case rd of
                  Reader r \<Rightarrow> w
                | TeeReader r tempfile \<Rightarrow>
                    emit (EvWrite tempfile written (tee_failure sy r k))
                      (w\<lparr>files := (files w)(tempfile \<mapsto> File written)\<rparr>))
      in w1\<lparr>inner := st\<rparr>)"

definition PutBlob_panic ::
  "sys \<Rightarrow> string list \<Rightarrow> stream \<Rightarrow> BlobInfo \<Rightarrow> bool \<Rightarrow> nat \<Rightarrow> 'i \<Rightarrow> 'i world \<Rightarrow> 'i world option" where
  "PutBlob_panic sy dirs strm inputInfo isConfig k st w =
     (if Digest inputInfo \<noteq> [] then
        (case dirs of
           [] \<Rightarrow> None
         | d0 # ds \<Rightarrow>
             (let directory = (if d0 = [] then ''.'' else d0);
                  filename = Join sy directory (makeFilename (Digest inputInfo) isConfig)
              in case TempFile sy directory (makeFilename (Digest inputInfo) isConfig) w of
                   ((tempfile, err), w1) \<Rightarrow>
                     if err = None then
                       Some (PutBlob_deferred sy inputInfo tempfile filename err
                               (destination_PutBlob_panic sy (TeeReader strm tempfile) k st w1))
                     else
                       Some (destination_PutBlob_panic sy (Reader strm) k st
                               (emit (EvLog ''error while creating a temporary file under %q to hold blob %q: %v''
                                  [d0, Digest inputInfo]) w1))))
      else Some (destination_PutBlob_panic sy (Reader strm) k st w))"

text \<open>ReapplyBlob: the scan ignores every error of \<^verbatim>\<open>os.Open\<close>, of whatever kind.\<close>

fun ReapplyBlob_variants ::
  "sys \<Rightarrow> 'i ImageDestination \<Rightarrow> BlobInfo \<Rightarrow> string \<Rightarrow> bool list \<Rightarrow> 'i world
     \<Rightarrow> (BlobInfo \<times> error option) option \<times> 'i world" where
  "ReapplyBlob_variants sy d info directory [] w = (None, w)"
| "ReapplyBlob_variants sy d info directory (isConfig # rest) w =
     (let filename = Join sy directory (makeFilename (Digest info) isConfig) in
      case os_Open filename w of
        ((Some f, None), w1) \<Rightarrow>
          (case destination_PutBlob sy d (Reader f) info isConfig w1 of
             (reply, w2) \<Rightarrow> (Some (p_info reply, p_err reply), emit (EvClose filename) w2))
      | (other, w1) \<Rightarrow> ReapplyBlob_variants sy d info directory rest w1)"

fun ReapplyBlob_dirs ::
  "sys \<Rightarrow> 'i ImageDestination \<Rightarrow> BlobInfo \<Rightarrow> string list \<Rightarrow> 'i world
     \<Rightarrow> (BlobInfo \<times> error option) option \<times> 'i world" where
  "ReapplyBlob_dirs sy d info [] w = (None, w)"
| "ReapplyBlob_dirs sy d info (directory # rest) w =
     (case ReapplyBlob_variants sy d info directory [False, True] w of
        (Some r, w1) \<Rightarrow> (Some r, w1)
      | (None, w1) \<Rightarrow> ReapplyBlob_dirs sy d info rest w1)"

definition ReapplyBlob ::
  "sys \<Rightarrow> 'i ImageDestination \<Rightarrow> string list \<Rightarrow> BlobInfo \<Rightarrow> 'i world
     \<Rightarrow> (BlobInfo \<times> error option) \<times> 'i world" where
  "ReapplyBlob sy d dirs info w =
     (case destination_HasBlob d info w of
        ((present, sz, err), w1) \<Rightarrow>
          if err \<noteq> None
          then ((\<lparr>Digest = [], Size = 0\<rparr>, Wrapf err ''error checking for blob %q in cache %#v'' (Digest info # dirs)), w1)
          else
            (case (if \<not> present then ReapplyBlob_dirs sy d info dirs w1 else (None, w1)) of
               (Some r, w2) \<Rightarrow> (r, w2)
             | (None, w2) \<Rightarrow> destination_ReapplyBlob d info w2))"

subsection \<open>NewBlobCache and Directories: slices on a heap\<close>

text \<open>
  A Go slice is a window on a backing array, and two slices on one array see each
  other's writes. The heap holds the arrays; allocation takes the next unused one.
\<close>

record slice =
  sl_array :: nat
  sl_off :: nat
  sl_len :: nat

record heap =
  arrays :: "nat \<Rightarrow> string list"
  next_array :: nat

definition slice_elems :: "heap \<Rightarrow> slice \<Rightarrow> string list" where
  "slice_elems h s = take (sl_len s) (drop (sl_off s) (arrays h (sl_array s)))"

definition valid_slice :: "heap \<Rightarrow> slice \<Rightarrow> bool" where
  "valid_slice h s =
     (sl_array s < next_array h \<and> sl_off s + sl_len s \<le> length (arrays h (sl_array s)))"

text \<open>\<^verbatim>\<open>append([]string{}, s...)\<close>: the elements of \<open>s\<close> in an array of their own.\<close>

definition append_fresh :: "slice \<Rightarrow> heap \<Rightarrow> slice \<times> heap" where
  "append_fresh s h =
     (\<lparr>sl_array = next_array h, sl_off = 0, sl_len = sl_len s\<rparr>,
      h\<lparr>arrays := (arrays h)(next_array h := slice_elems h s),
        next_array := Suc (next_array h)\<rparr>)"

text \<open>
  A write to an element of an array, and the assignment \<^verbatim>\<open>s[i] = v\<close> through a
  slice, which panics (\<open>None\<close>) when \<open>i\<close> is out of range.
\<close>

definition array_store :: "nat \<Rightarrow> nat \<Rightarrow> string \<Rightarrow> heap \<Rightarrow> heap" where
  "array_store a i v h = h\<lparr>arrays := (arrays h)(a := (arrays h a)[i := v])\<rparr>"

definition slice_store :: "slice \<Rightarrow> nat \<Rightarrow> string \<Rightarrow> heap \<Rightarrow> heap option" where
  "slice_store s i v h =
     (if i < sl_len s then Some (array_store (sl_array s) (sl_off s + i) v h) else None)"

text \<open>The reference: the name of the wrapped reference and the slice of directories.\<close>

record blobCacheReference =
  reference :: string
  directories :: slice

definition NewBlobCache ::
  "string \<Rightarrow> slice \<Rightarrow> heap \<Rightarrow> error + (blobCacheReference \<times> heap)" where
  "NewBlobCache ref dirs h =
     (if sl_len dirs = 0
      then Inl (Failure ''error building cache: no cache directory specified for %q'' [ref])
      else case append_fresh dirs h of
             (s, h1) \<Rightarrow> Inr (\<lparr>reference = ref, directories = s\<rparr>, h1))"

definition Directories :: "blobCacheReference \<Rightarrow> heap \<Rightarrow> slice \<times> heap" where
  "Directories r h = append_fresh (directories r) h"

text \<open>
  The directories a method of the reference ranges over when it runs on heap \<open>h\<close>,
  and HasBlob as a method of the reference.
\<close>

definition cache_dirs :: "heap \<Rightarrow> blobCacheReference \<Rightarrow> string list" where
  "cache_dirs h r = slice_elems h (directories r)"

definition reference_HasBlob ::
  "sys \<Rightarrow> heap \<Rightarrow> blobCacheReference \<Rightarrow> BlobInfo \<Rightarrow> 'i world
     \<Rightarrow> (bool \<times> int \<times> error option) \<times> 'i world" where
  "reference_HasBlob sy h r blobinfo w = HasBlob sy (cache_dirs h r) blobinfo w"

subsection \<open>Vocabulary of the properties\<close>

text \<open>
  The events of one execution, from the world before it and the world after it, and
  an order on them: \<open>preceded P Q tr\<close> says that every event of \<open>tr\<close> that satisfies
  \<open>Q\<close> comes after an event that satisfies \<open>P\<close>.
\<close>

definition events_since :: "'i world \<Rightarrow> 'i world \<Rightarrow> event list" where
  "events_since w w' = drop (length (trace w)) (trace w')"

definition preceded :: "(event \<Rightarrow> bool) \<Rightarrow> (event \<Rightarrow> bool) \<Rightarrow> event list \<Rightarrow> bool" where
  "preceded P Q tr = (\<forall>i < length tr. Q (tr ! i) \<longrightarrow> (\<exists>j < i. P (tr ! j)))"

fun is_rename :: "event \<Rightarrow> bool" where
  "is_rename (EvRename oldpath newpath x) = True"
| "is_rename e = False"

fun changes_files :: "event \<Rightarrow> bool" where
  "changes_files (EvTempFile dir pattern r) = True"
| "changes_files (EvWrite name b x) = True"
| "changes_files (EvRename oldpath newpath x) = True"
| "changes_files (EvRemove name x) = True"
| "changes_files e = False"

fun PutBlob_accepted :: "event \<Rightarrow> bool" where
  "PutBlob_accepted (EvInner (PutBlobCall r info isConfig) None) = True"
| "PutBlob_accepted e = False"

text \<open>
  The contract of \<^verbatim>\<open>types.ImageDestination.PutBlob\<close> on a failing stream: a
  destination that reads as far as the error of its stream fails.
\<close>

definition fails_on_read_error :: "'i ImageDestination \<Rightarrow> bool" where
  "fails_on_read_error d =
     (\<forall>r info isConfig st.
        s_err r \<noteq> None \<and> length (s_data r) < p_read (fst (dest_PutBlob d r info isConfig st))
          \<longrightarrow> p_err (fst (dest_PutBlob d r info isConfig st)) \<noteq> None)"

subsection \<open>Concrete environments for the runs below\<close>

text \<open>
  Path joining on clean Unix directory names and plain file names, an environment
  without faults, and a wrapped transport that keeps blobs by digest: its PutBlob
  reads the stream to the end and fails when the stream ends with an error. The
  second destination returns success whatever its stream does. The third returns at
  once, without reading, when it already holds a blob of the digest, as a registry
  destination does that asks for the blob before it uploads.
\<close>

definition unix_Join :: "string \<Rightarrow> string \<Rightarrow> string" where
  "unix_Join dir name = (if dir = [] \<or> dir = ''.'' then name else dir @ ''/'' @ name)"

definition quiet :: sys where
  "quiet = \<lparr>Join = unix_Join, GuessMIMEType = (\<lambda>b. if b = [] then [] else ''application/json''),
     temp_suffix = ''042'', tempfile_fault = None, write_fault = None,
     rename_fault = None, remove_fault = None\<rparr>"

type_synonym blobs = "(string \<times> bytes) list"

definition store_dest :: "blobs ImageDestination" where
  "store_dest =
     \<lparr>dest_PutBlob = (\<lambda>r info isConfig st.
        (case s_err r of
           Some e \<Rightarrow> (\<lparr>p_read = Suc (length (s_data r)), p_info = info, p_err = Some e\<rparr>, st)
         | None \<Rightarrow>
             (\<lparr>p_read = Suc (length (s_data r)),
               p_info = \<lparr>Digest = Digest info, Size = int (length (s_data r))\<rparr>,
               p_err = None\<rparr>,
              (Digest info, s_data r) # st))),
      dest_HasBlob = (\<lambda>info st.
        ((case map_of st (Digest info) of
            Some b \<Rightarrow> (True, int (length b), None)
          | None \<Rightarrow> (False, -1, None)), st)),
      dest_ReapplyBlob = (\<lambda>info st. ((info, None), st))\<rparr>"

definition careless_dest :: "blobs ImageDestination" where
  "careless_dest =
     store_dest\<lparr>dest_PutBlob := (\<lambda>r info isConfig st.
        (\<lparr>p_read = Suc (length (s_data r)), p_info = info, p_err = None\<rparr>,
         (Digest info, s_data r) # st))\<rparr>"

definition skipping_dest :: "blobs ImageDestination" where
  "skipping_dest =
     store_dest\<lparr>dest_PutBlob := (\<lambda>r info isConfig st.
        (case map_of st (Digest info) of
           Some b \<Rightarrow>
             (\<lparr>p_read = 0, p_info = \<lparr>Digest = Digest info, Size = int (length b)\<rparr>, p_err = None\<rparr>, st)
         | None \<Rightarrow> dest_PutBlob store_dest r info isConfig st))\<rparr>"

definition store_src :: "blobs ImageSource" where
  "store_src =
     \<lparr>src_GetManifest = (\<lambda>instanceDigest st.
        ((case map_of st ''manifest'' of
            Some b \<Rightarrow> (b, ''application/json'', None)
          | None \<Rightarrow> ([], [], Some (Failure ''no manifest'' []))), st)),
      src_GetBlob = (\<lambda>info st.
        ((case map_of st (Digest info) of
            Some b \<Rightarrow> (Some (bytes_stream b), int (length b), None)
          | None \<Rightarrow> (None, -1, Some (Failure ''no such blob'' []))), st))\<rparr>"

definition world0 :: "(string \<times> node) list \<Rightarrow> blobs \<Rightarrow> blobs world" where
  "world0 fs st = \<lparr>files = map_of fs, trace = [], inner = st\<rparr>"

section \<open>Properties\<close>

subsection \<open>Frame lemmas and single steps\<close>

lemma files_emit [simp]: "files (emit e w) = files w"
  and inner_emit [simp]: "inner (emit e w) = inner w"
  and trace_emit [simp]: "trace (emit e w) = trace w @ [e]"
  by (simp_all add: emit_def)

lemma os_Stat_files [simp]: "files (snd (os_Stat name w)) = files w"
  and os_Stat_inner [simp]: "inner (snd (os_Stat name w)) = inner w"
  by (simp_all add: os_Stat_def)

lemma HasBlob_variants_files [simp]:
  "files (snd (HasBlob_variants sy bi dir cs w)) = files w"
  by (induction cs arbitrary: w) (simp_all add: Let_def os_Stat_def split: prod.splits)

lemma HasBlob_variants_inner [simp]:
  "inner (snd (HasBlob_variants sy bi dir cs w)) = inner w"
  by (induction cs arbitrary: w) (simp_all add: Let_def os_Stat_def split: prod.splits)

lemma HasBlob_dirs_files [simp]:
  "files (snd (HasBlob_dirs sy bi ds w)) = files w"
proof (induction ds arbitrary: w)
  case Nil
  show ?case by simp
next
  case (Cons d ds)
  show ?case
  proof (cases "HasBlob_variants sy bi d [False, True] w")
    case (Pair r w1)
    have f: "files w1 = files w"
      using HasBlob_variants_files [of sy bi d "[False, True]" w] Pair by simp
    show ?thesis
    proof (cases r)
      case None
      with Pair Cons.IH [of w1] f show ?thesis by simp
    next
      case (Some a)
      with Pair f show ?thesis by simp
    qed
  qed
qed

lemma HasBlob_files [simp]: "files (snd (HasBlob sy ds bi w)) = files w"
proof (cases "HasBlob_dirs sy bi ds w")
  case (Pair r w1)
  have "files w1 = files w" using HasBlob_dirs_files [of sy bi ds w] Pair by simp
  with Pair show ?thesis by (cases r) (simp_all add: HasBlob_def)
qed

lemma HasBlob_hit_plain:
  assumes "Digest bi \<noteq> []"
    and "files w (Join sy d0 (Digest bi)) = Some n" and "n_stat n = Inr sz"
    and "Size bi = -1 \<or> Size bi = sz"
  shows "fst (HasBlob sy (d0 # ds) bi w) = (True, sz, None)"
  using assms by (simp add: HasBlob_def makeFilename_def os_Stat_def Let_def)

lemma HasBlob_hit_config:
  assumes "Digest bi \<noteq> []"
    and "files w (Join sy d0 (Digest bi)) = None"
    and "files w (Join sy d0 (Digest bi @ ''.config'')) = Some n" and "n_stat n = Inr sz"
    and "Size bi = -1 \<or> Size bi = sz"
  shows "fst (HasBlob sy (d0 # ds) bi w) = (True, sz, None)"
  using assms by (simp add: HasBlob_def makeFilename_def os_Stat_def Let_def IsNotExist_def)

lemma os_Open_files [simp]: "files (snd (os_Open name w)) = files w"
  by (simp add: os_Open_def)

lemma GetBlob_dirs_hit_plain:
  assumes "files w (Join sy d0 (Digest bi)) = Some n" and "n_open n = Inr f"
  shows "fst (GetBlob_dirs sy bi sz (d0 # ds) w) = Some (Some f, sz, None)"
  using assms by (simp add: makeFilename_def os_Open_def Let_def)

lemma GetBlob_dirs_hit_config:
  assumes "files w (Join sy d0 (Digest bi)) = None"
    and "files w (Join sy d0 (Digest bi @ ''.config'')) = Some n" and "n_open n = Inr f"
  shows "fst (GetBlob_dirs sy bi sz (d0 # ds) w) = Some (Some f, sz, None)"
  using assms by (simp add: makeFilename_def os_Open_def Let_def IsNotExist_def)

lemma GetBlob_of_HasBlob:
  assumes "HasBlob sy dirs bi w = ((True, sz, None), w1)"
    and "fst (GetBlob_dirs sy bi sz dirs w1) = Some r"
  shows "fst (GetBlob sy s dirs bi w) = r"
  using assms by (cases "GetBlob_dirs sy bi sz dirs w1") (simp add: GetBlob_def)

lemma PutBlob_cached_files:
  assumes "Digest info \<noteq> []"
    and "tempfile_fault sy = None" and "rename_fault sy = None"
    and "dir = (if d0 = [] then ''.'' else d0)"
    and "tmp = Join sy dir (makeFilename (Digest info) isConfig @ temp_suffix sy)"
    and "files w tmp = None"
    and "dest_PutBlob d (yields sy (TeeReader strm tmp)) info isConfig (inner w) = (reply, st)"
    and "p_err reply = None"
    and "PutBlob sy d (d0 # ds) strm info isConfig w = Some (res, w')"
  shows "files w' = ((files w)(tmp := None))
           (Join sy dir (makeFilename (Digest info) isConfig) \<mapsto>
              File (take (p_read reply) (s_data (yields sy (TeeReader strm tmp)))))"
    and "res = (p_info reply, None)"
  using assms
  by (auto simp add: PutBlob_def TempFile_def destination_PutBlob_def PutBlob_deferred_def
      os_Rename_def PutBlob_return_def Let_def)


lemma GetBlob_hit_plain:
  assumes "Digest bi \<noteq> []"
    and "files w (Join sy d0 (Digest bi)) = Some n"
    and "n_stat n = Inr sz" and "n_open n = Inr f"
    and "Size bi = -1 \<or> Size bi = sz"
  shows "fst (GetBlob sy s (d0 # ds) bi w) = (Some f, sz, None)"
proof -
  have has: "fst (HasBlob sy (d0 # ds) bi w) = (True, sz, None)"
    by (rule HasBlob_hit_plain [OF assms(1,2,3,5)])
  obtain w1 where h: "HasBlob sy (d0 # ds) bi w = ((True, sz, None), w1)"
    using has by (cases "HasBlob sy (d0 # ds) bi w") simp
  have "files (snd (HasBlob sy (d0 # ds) bi w)) = files w"
    by (rule HasBlob_files)
  then have "files w1 (Join sy d0 (Digest bi)) = Some n"
    using h assms(2) by simp
  then have "fst (GetBlob_dirs sy bi sz (d0 # ds) w1) = Some (Some f, sz, None)"
    by (rule GetBlob_dirs_hit_plain [OF _ assms(4)])
  then show ?thesis
    by (rule GetBlob_of_HasBlob [OF h])
qed

text \<open>For a fixed digest the file name tells a config blob from a layer.\<close>

lemma makeFilename_isConfig_inj:
  "makeFilename blobSum a = makeFilename blobSum b \<longleftrightarrow> a = b"
  by (simp add: makeFilename_def)

subsection \<open>PutBlob, path by path\<close>

lemma TempFile_fails:
  assumes "tempfile_fault sy \<noteq> None \<or> files w (Join sy dir (pattern @ temp_suffix sy)) \<noteq> None"
  shows "\<exists>e. TempFile sy dir pattern w = (([], Some (Errno e)), emit (EvTempFile dir pattern (Inl e)) w)"
proof (cases "tempfile_fault sy")
  case None
  with assms show ?thesis by (auto simp add: TempFile_def Let_def)
next
  case (Some e)
  then show ?thesis by (simp add: TempFile_def Let_def)
qed

lemma TempFile_creates:
  assumes "tempfile_fault sy = None" and "name = Join sy dir (pattern @ temp_suffix sy)"
    and "files w name = None"
  shows "TempFile sy dir pattern w =
     ((name, None), emit (EvTempFile dir pattern (Inr name)) (w\<lparr>files := (files w)(name \<mapsto> File [])\<rparr>))"
  using assms by (simp add: TempFile_def Let_def)

lemma destination_PutBlob_Reader:
  assumes "dest_PutBlob d r info isConfig (inner w) = (reply, st)"
  shows "destination_PutBlob sy d (Reader r) info isConfig w =
     (reply, emit (EvInner (PutBlobCall r info isConfig) (p_err reply)) (w\<lparr>inner := st\<rparr>))"
  using assms by (simp add: destination_PutBlob_def)

lemma destination_PutBlob_TeeReader:
  assumes "dest_PutBlob d (yields sy (TeeReader r t)) info isConfig (inner w) = (reply, st)"
    and "written = take (p_read reply) (s_data (yields sy (TeeReader r t)))"
  shows "destination_PutBlob sy d (TeeReader r t) info isConfig w =
     (reply,
      emit (EvInner (PutBlobCall (yields sy (TeeReader r t)) info isConfig) (p_err reply))
        ((emit (EvWrite t written (tee_failure sy r (p_read reply)))
            (w\<lparr>files := (files w)(t \<mapsto> File written)\<rparr>))\<lparr>inner := st\<rparr>))"
  using assms by (simp add: destination_PutBlob_def Let_def del: yields.simps)

lemma PutBlob_deferred_inner [simp]:
  "inner (PutBlob_deferred sy inputInfo t fn err w) = inner w"
  by (simp add: PutBlob_deferred_def os_Rename_def os_Remove_def split: option.splits)

lemma PutBlob_deferred_trace:
  assumes "files w t \<noteq> None"
  shows "trace (PutBlob_deferred sy inputInfo t fn err w) = trace w @
           (if err = None then [EvRename t fn (rename_fault sy)]
            else if remove_fault sy = None then [EvRemove t None]
            else [EvRemove t (remove_fault sy), EvLog ''error cleaning up temporary file %q for blob %q: %v'' [t, Digest inputInfo]]) @
           [EvClose t]"
proof -
  obtain n where "files w t = Some n"
    using assms by blast
  then show ?thesis
    by (cases "rename_fault sy"; cases "remove_fault sy")
       (simp_all add: PutBlob_deferred_def os_Rename_def os_Remove_def)
qed

lemma PutBlob_deferred_files:
  assumes "files w t \<noteq> None"
  shows "files (PutBlob_deferred sy inputInfo t fn err w) =
           (if err = None
            then (if rename_fault sy = None then ((files w)(t := None))(fn := files w t) else files w)
            else (if remove_fault sy = None then (files w)(t := None) else files w))"
proof -
  obtain n where "files w t = Some n"
    using assms by blast
  then show ?thesis
    by (cases "rename_fault sy"; cases "remove_fault sy")
       (simp_all add: PutBlob_deferred_def os_Rename_def os_Remove_def)
qed

lemma PutBlob_anon:
  assumes "Digest inputInfo = []"
    and "dest_PutBlob d strm inputInfo isConfig (inner w) = (reply, st)"
  shows "PutBlob sy d dirs strm inputInfo isConfig w =
     Some (PutBlob_return reply,
       emit (EvInner (PutBlobCall strm inputInfo isConfig) (p_err reply)) (w\<lparr>inner := st\<rparr>))"
  using assms by (simp add: PutBlob_def destination_PutBlob_Reader)

lemma PutBlob_no_tempfile:
  assumes "Digest inputInfo \<noteq> []"
    and "dir = (if d0 = [] then ''.'' else d0)"
    and "tempfile_fault sy \<noteq> None \<or>
         files w (Join sy dir (makeFilename (Digest inputInfo) isConfig @ temp_suffix sy)) \<noteq> None"
    and "dest_PutBlob d strm inputInfo isConfig (inner w) = (reply, st)"
  shows "\<exists>e. PutBlob sy d (d0 # ds) strm inputInfo isConfig w =
     Some (PutBlob_return reply,
       emit (EvInner (PutBlobCall strm inputInfo isConfig) (p_err reply))
         ((emit (EvLog ''error while creating a temporary file under %q to hold blob %q: %v'' [d0, Digest inputInfo])
            (emit (EvTempFile dir (makeFilename (Digest inputInfo) isConfig) (Inl e)) w))\<lparr>inner := st\<rparr>))"
proof -
  obtain e where t: "TempFile sy dir (makeFilename (Digest inputInfo) isConfig) w
      = (([], Some (Errno e)), emit (EvTempFile dir (makeFilename (Digest inputInfo) isConfig) (Inl e)) w)"
    using TempFile_fails [OF assms(3)] by blast
  have c: "dest_PutBlob d strm inputInfo isConfig
      (inner (emit (EvLog ''error while creating a temporary file under %q to hold blob %q: %v'' [d0, Digest inputInfo])
            (emit (EvTempFile dir (makeFilename (Digest inputInfo) isConfig) (Inl e)) w))) = (reply, st)"
    using assms(4) by simp
  have "PutBlob sy d (d0 # ds) strm inputInfo isConfig w =
     Some (PutBlob_return reply,
       emit (EvInner (PutBlobCall strm inputInfo isConfig) (p_err reply))
         ((emit (EvLog ''error while creating a temporary file under %q to hold blob %q: %v'' [d0, Digest inputInfo])
            (emit (EvTempFile dir (makeFilename (Digest inputInfo) isConfig) (Inl e)) w))\<lparr>inner := st\<rparr>))"
    using assms(1) t
    by (simp add: PutBlob_def assms(2) [symmetric] destination_PutBlob_Reader [OF c])
  then show ?thesis ..
qed

lemma PutBlob_tee:
  assumes "Digest inputInfo \<noteq> []"
    and "tempfile_fault sy = None"
    and "dir = (if d0 = [] then ''.'' else d0)"
    and "tmp = Join sy dir (makeFilename (Digest inputInfo) isConfig @ temp_suffix sy)"
    and "fn = Join sy dir (makeFilename (Digest inputInfo) isConfig)"
    and "files w tmp = None"
    and "dest_PutBlob d (yields sy (TeeReader strm tmp)) inputInfo isConfig (inner w) = (reply, st)"
    and "written = take (p_read reply) (s_data (yields sy (TeeReader strm tmp)))"
    and "PutBlob sy d (d0 # ds) strm inputInfo isConfig w = Some (res, w')"
  shows "res = PutBlob_return reply"
    and "inner w' = st"
    and "trace w' = trace w @
           [EvTempFile dir (makeFilename (Digest inputInfo) isConfig) (Inr tmp),
            EvWrite tmp written (tee_failure sy strm (p_read reply)),
            EvInner (PutBlobCall (yields sy (TeeReader strm tmp)) inputInfo isConfig) (p_err reply)] @
           (if p_err reply = None then [EvRename tmp fn (rename_fault sy)]
            else if remove_fault sy = None then [EvRemove tmp None]
            else [EvRemove tmp (remove_fault sy), EvLog ''error cleaning up temporary file %q for blob %q: %v'' [tmp, Digest inputInfo]]) @
           [EvClose tmp]"
    and "files w' =
           (if p_err reply = None
            then (if rename_fault sy = None then ((files w)(tmp := None))(fn \<mapsto> File written)
                  else (files w)(tmp \<mapsto> File written))
            else (if remove_fault sy = None then (files w)(tmp := None)
                  else (files w)(tmp \<mapsto> File written)))"
proof -
  define w1 where "w1 = emit (EvTempFile dir (makeFilename (Digest inputInfo) isConfig) (Inr tmp))
      (w\<lparr>files := (files w)(tmp \<mapsto> File [])\<rparr>)"
  define w2 where "w2 = emit (EvInner (PutBlobCall (yields sy (TeeReader strm tmp)) inputInfo isConfig) (p_err reply))
        ((emit (EvWrite tmp written (tee_failure sy strm (p_read reply)))
            (w1\<lparr>files := (files w1)(tmp \<mapsto> File written)\<rparr>))\<lparr>inner := st\<rparr>)"
  have t: "TempFile sy dir (makeFilename (Digest inputInfo) isConfig) w = ((tmp, None), w1)"
    unfolding w1_def by (rule TempFile_creates [OF assms(2) assms(4) assms(6)])
  have "dest_PutBlob d (yields sy (TeeReader strm tmp)) inputInfo isConfig (inner w1) = (reply, st)"
    using assms(7) by (simp add: w1_def)
  then have c: "destination_PutBlob sy d (TeeReader strm tmp) inputInfo isConfig w1 = (reply, w2)"
    unfolding w2_def by (rule destination_PutBlob_TeeReader [OF _ assms(8)])
  have p: "PutBlob sy d (d0 # ds) strm inputInfo isConfig w
      = Some (PutBlob_return reply, PutBlob_deferred sy inputInfo tmp fn (p_err reply) w2)"
    using assms(1) t c
    by (simp add: PutBlob_def assms(3) [symmetric] assms(5) [symmetric] del: yields.simps)
  have w': "w' = PutBlob_deferred sy inputInfo tmp fn (p_err reply) w2" and r: "res = PutBlob_return reply"
    using p assms(9) by simp_all
  have ex: "files w2 tmp \<noteq> None"
    by (simp add: w2_def)
  have tr2: "trace w2 = trace w @
           [EvTempFile dir (makeFilename (Digest inputInfo) isConfig) (Inr tmp),
            EvWrite tmp written (tee_failure sy strm (p_read reply)),
            EvInner (PutBlobCall (yields sy (TeeReader strm tmp)) inputInfo isConfig) (p_err reply)]"
    by (simp add: w2_def w1_def del: yields.simps)
  have fs2: "files w2 = (files w)(tmp \<mapsto> File written)"
    by (simp add: w2_def w1_def)
  show "res = PutBlob_return reply" by (rule r)
  show "inner w' = st" by (simp add: w' w2_def)
  show "trace w' = trace w @
           [EvTempFile dir (makeFilename (Digest inputInfo) isConfig) (Inr tmp),
            EvWrite tmp written (tee_failure sy strm (p_read reply)),
            EvInner (PutBlobCall (yields sy (TeeReader strm tmp)) inputInfo isConfig) (p_err reply)] @
           (if p_err reply = None then [EvRename tmp fn (rename_fault sy)]
            else if remove_fault sy = None then [EvRemove tmp None]
            else [EvRemove tmp (remove_fault sy), EvLog ''error cleaning up temporary file %q for blob %q: %v'' [tmp, Digest inputInfo]]) @
           [EvClose tmp]"
    unfolding w' PutBlob_deferred_trace [OF ex] tr2 by simp
  show "files w' =
           (if p_err reply = None
            then (if rename_fault sy = None then ((files w)(tmp := None))(fn \<mapsto> File written)
                  else (files w)(tmp \<mapsto> File written))
            else (if remove_fault sy = None then (files w)(tmp := None)
                  else (files w)(tmp \<mapsto> File written)))"
    unfolding w' PutBlob_deferred_files [OF ex] fs2 by simp
qed

lemma PutBlob_panic_tee:
  assumes "Digest inputInfo \<noteq> []"
    and "tempfile_fault sy = None"
    and "dir = (if d0 = [] then ''.'' else d0)"
    and "tmp = Join sy dir (makeFilename (Digest inputInfo) isConfig @ temp_suffix sy)"
    and "fn = Join sy dir (makeFilename (Digest inputInfo) isConfig)"
    and "files w tmp = None"
    and "written = take k (s_data (yields sy (TeeReader strm tmp)))"
  shows "\<exists>v. PutBlob_panic sy (d0 # ds) strm inputInfo isConfig k st w = Some v \<and>
           inner v = st \<and>
           trace v = trace w @
             [EvTempFile dir (makeFilename (Digest inputInfo) isConfig) (Inr tmp),
              EvWrite tmp written (tee_failure sy strm k),
              EvRename tmp fn (rename_fault sy),
              EvClose tmp] \<and>
           files v = (if rename_fault sy = None then ((files w)(tmp := None))(fn \<mapsto> File written)
                      else (files w)(tmp \<mapsto> File written))"
proof -
  define w1 where "w1 = emit (EvTempFile dir (makeFilename (Digest inputInfo) isConfig) (Inr tmp))
      (w\<lparr>files := (files w)(tmp \<mapsto> File [])\<rparr>)"
  define w2 where "w2 = (emit (EvWrite tmp written (tee_failure sy strm k))
            (w1\<lparr>files := (files w1)(tmp \<mapsto> File written)\<rparr>))\<lparr>inner := st\<rparr>"
  have t: "TempFile sy dir (makeFilename (Digest inputInfo) isConfig) w = ((tmp, None), w1)"
    unfolding w1_def by (rule TempFile_creates [OF assms(2) assms(4) assms(6)])
  have c: "destination_PutBlob_panic sy (TeeReader strm tmp) k st w1 = w2"
    unfolding w2_def by (simp add: destination_PutBlob_panic_def Let_def assms(7) del: yields.simps)
  have p: "PutBlob_panic sy (d0 # ds) strm inputInfo isConfig k st w
      = Some (PutBlob_deferred sy inputInfo tmp fn None w2)"
    using assms(1) t c
    by (simp add: PutBlob_panic_def assms(3) [symmetric] assms(5) [symmetric] del: yields.simps)
  have ex: "files w2 tmp \<noteq> None"
    by (simp add: w2_def)
  have tr2: "trace w2 = trace w @
           [EvTempFile dir (makeFilename (Digest inputInfo) isConfig) (Inr tmp),
            EvWrite tmp written (tee_failure sy strm k)]"
    by (simp add: w2_def w1_def)
  have fs2: "files w2 = (files w)(tmp \<mapsto> File written)"
    by (simp add: w2_def w1_def)
  have i: "inner (PutBlob_deferred sy inputInfo tmp fn None w2) = st"
    by (simp add: w2_def)
  have tr: "trace (PutBlob_deferred sy inputInfo tmp fn None w2) = trace w @
             [EvTempFile dir (makeFilename (Digest inputInfo) isConfig) (Inr tmp),
              EvWrite tmp written (tee_failure sy strm k),
              EvRename tmp fn (rename_fault sy),
              EvClose tmp]"
    unfolding PutBlob_deferred_trace [OF ex] tr2 by simp
  have fs: "files (PutBlob_deferred sy inputInfo tmp fn None w2) =
      (if rename_fault sy = None then ((files w)(tmp := None))(fn \<mapsto> File written)
       else (files w)(tmp \<mapsto> File written))"
    unfolding PutBlob_deferred_files [OF ex] fs2 by simp
  from p i tr fs show ?thesis by blast
qed

lemma yields_without_failure:
  assumes "tee_failure sy r k = None"
  shows "take k (s_data (yields sy (TeeReader r t))) = take k (s_data r)"
proof (cases "write_fault sy")
  case None
  then show ?thesis by simp
next
  case (Some a)
  obtain n e where a: "a = (n, e)" by (cases a)
  show ?thesis
  proof (cases "n < length (s_data r)")
    case True
    with assms have "k \<le> n"
      by (simp add: tee_failure_def Some a split: if_splits)
    then show ?thesis
      using True by (simp add: Some a min_def)
  next
    case False
    then show ?thesis by (simp add: Some a)
  qed
qed

subsection \<open>The order of events\<close>

lemma preceded_Nil [simp]: "preceded P Q [] = True"
  by (simp add: preceded_def)

lemma preceded_Cons [simp]: "preceded P Q (e # es) = (\<not> Q e \<and> (P e \<or> preceded P Q es))"
proof -
  have "(\<forall>i < Suc (length es). Q ((e # es) ! i) \<longrightarrow> (\<exists>j < i. P ((e # es) ! j)))
      \<longleftrightarrow> (\<not> Q e \<and> (\<forall>k < length es. Q (es ! k) \<longrightarrow> (\<exists>j < Suc k. P ((e # es) ! j))))"
    by (simp add: All_less_Suc2)
  also have "\<dots> \<longleftrightarrow> (\<not> Q e \<and> (\<forall>k < length es. Q (es ! k) \<longrightarrow> (P e \<or> (\<exists>j < k. P (es ! j)))))"
    by (simp add: Ex_less_Suc2)
  also have "\<dots> \<longleftrightarrow> (\<not> Q e \<and> (P e \<or> (\<forall>k < length es. Q (es ! k) \<longrightarrow> (\<exists>j < k. P (es ! j)))))"
    by blast
  finally show ?thesis
    by (simp add: preceded_def)
qed

lemma events_since_append [simp]: "trace w' = trace w @ tr \<Longrightarrow> events_since w w' = tr"
  by (simp add: events_since_def)

lemma no_tee_failure:
  assumes "fails_on_read_error d"
    and "dest_PutBlob d (yields sy (TeeReader strm t)) info isConfig st0 = (reply, st)"
    and "p_err reply = None"
  shows "tee_failure sy strm (p_read reply) = None"
proof (cases "write_fault sy")
  case None
  then show ?thesis by (simp add: tee_failure_def)
next
  case (Some a)
  obtain n e where a: "a = (n, e)" by (cases a)
  show ?thesis
  proof (cases "n < length (s_data strm) \<and> n < p_read reply")
    case True
    let ?r = "\<lparr>s_data = take n (s_data strm), s_err = Some (Errno e)\<rparr>"
    have y: "yields sy (TeeReader strm t) = ?r"
      using Some a True by simp
    have c: "dest_PutBlob d ?r info isConfig st0 = (reply, st)"
      using assms(2) unfolding y .
    have "s_err ?r \<noteq> None \<and> length (s_data ?r) < p_read (fst (dest_PutBlob d ?r info isConfig st0))"
      using True by (simp add: c)
    then have "p_err (fst (dest_PutBlob d ?r info isConfig st0)) \<noteq> None"
      using assms(1) unfolding fails_on_read_error_def by blast
    then show ?thesis
      using assms(3) by (simp add: c)
  next
    case False
    then show ?thesis
      using Some a by (auto simp add: tee_failure_def)
  qed
qed

lemma store_dest_fails_on_read_error: "fails_on_read_error store_dest"
  by (auto simp add: fails_on_read_error_def store_dest_def split: option.splits)

subsection \<open>The scans of the source\<close>

lemma ReadFile_emit [simp]: "fst (ReadFile name (emit e w)) = fst (ReadFile name w)"
  by (simp add: ReadFile_def)

lemma ReadFile_snd: "snd (ReadFile name w) = emit (EvReadFile name) w"
  by (simp add: ReadFile_def)

lemma emit_trace_update:
  "emit e (w\<lparr>trace := trace w @ es\<rparr>) = w\<lparr>trace := trace w @ es @ [e]\<rparr>"
  by (simp add: emit_def)

lemma ReadFile_trace_update [simp]:
  "fst (ReadFile name (w\<lparr>trace := tr\<rparr>)) = fst (ReadFile name w)"
  by (simp add: ReadFile_def)

lemma GetManifest_dirs_miss:
  assumes "\<forall>p \<in> set ds. IsNotExist (snd (fst (ReadFile (Join sy p (makeFilename dg False)) w)))"
  shows "GetManifest_dirs sy dg ds (w\<lparr>trace := trace w @ es\<rparr>) =
     (None, w\<lparr>trace := trace w @ es @ map (\<lambda>p. EvReadFile (Join sy p (makeFilename dg False))) ds\<rparr>)"
  using assms
proof (induction ds arbitrary: es)
  case Nil
  show ?case by simp
next
  case (Cons p ds)
  let ?fn = "Join sy p (makeFilename dg False)"
  let ?w = "w\<lparr>trace := trace w @ es\<rparr>"
  obtain b err where r: "fst (ReadFile ?fn w) = (b, err)"
    by (cases "fst (ReadFile ?fn w)")
  have ne: "IsNotExist err"
    using Cons.prems r by simp
  then have e: "err = Some (Errno ENOENT)"
    by (simp add: IsNotExist_def)
  have rf: "ReadFile ?fn ?w = ((b, err), w\<lparr>trace := trace w @ (es @ [EvReadFile ?fn])\<rparr>)"
    using r by (simp add: prod_eq_iff ReadFile_snd emit_def)
  have rest: "\<forall>p \<in> set ds. IsNotExist (snd (fst (ReadFile (Join sy p (makeFilename dg False)) w)))"
    using Cons.prems by simp
  show ?case
    using Cons.IH [OF rest, of "es @ [EvReadFile ?fn]"]
    by (simp add: rf Let_def e IsNotExist_def)
qed

lemma GetManifest_dirs_hit:
  assumes "\<forall>p \<in> set pre. IsNotExist (snd (fst (ReadFile (Join sy p (makeFilename dg False)) w)))"
    and "fst (ReadFile (Join sy d (makeFilename dg False)) w) = (b, None)"
  shows "GetManifest_dirs sy dg (pre @ d # post) (w\<lparr>trace := trace w @ es\<rparr>) =
     (Some (b, GuessMIMEType sy b, None),
      w\<lparr>trace := trace w @ es @ map (\<lambda>p. EvReadFile (Join sy p (makeFilename dg False))) (pre @ [d])\<rparr>)"
  using assms(1)
proof (induction pre arbitrary: es)
  case Nil
  let ?fn = "Join sy d (makeFilename dg False)"
  have rf: "ReadFile ?fn (w\<lparr>trace := trace w @ es\<rparr>) = ((b, None), w\<lparr>trace := trace w @ (es @ [EvReadFile ?fn])\<rparr>)"
    using assms(2) by (simp add: prod_eq_iff ReadFile_snd emit_def)
  show ?case
    by (simp add: rf Let_def)
next
  case (Cons p pre)
  let ?fn = "Join sy p (makeFilename dg False)"
  obtain b' err where r: "fst (ReadFile ?fn w) = (b', err)"
    by (cases "fst (ReadFile ?fn w)")
  have ne: "IsNotExist err"
    using Cons.prems r by simp
  then have e: "err = Some (Errno ENOENT)"
    by (simp add: IsNotExist_def)
  have rf: "ReadFile ?fn (w\<lparr>trace := trace w @ es\<rparr>) = ((b', err), w\<lparr>trace := trace w @ (es @ [EvReadFile ?fn])\<rparr>)"
    using r by (simp add: prod_eq_iff ReadFile_snd emit_def)
  have rest: "\<forall>p \<in> set pre. IsNotExist (snd (fst (ReadFile (Join sy p (makeFilename dg False)) w)))"
    using Cons.prems by simp
  show ?case
    using Cons.IH [OF rest, of "es @ [EvReadFile ?fn]"]
    by (simp add: rf Let_def e IsNotExist_def)
qed

lemma world_trace_nil: "w\<lparr>trace := trace w @ []\<rparr> = w"
  by simp

lemma ReadFile_frame [simp]:
  "files (snd (ReadFile name w)) = files w" "inner (snd (ReadFile name w)) = inner w"
  "trace (snd (ReadFile name w)) = trace w @ [EvReadFile name]"
  by (simp_all add: ReadFile_def)

lemma GetManifest_dirs_frame:
  "files (snd (GetManifest_dirs sy dg ds w)) = files w \<and>
   inner (snd (GetManifest_dirs sy dg ds w)) = inner w \<and>
   (\<exists>tr. trace (snd (GetManifest_dirs sy dg ds w)) = trace w @ tr \<and> (\<forall>e \<in> set tr. \<not> changes_files e))"
proof (induction ds arbitrary: w)
  case Nil
  show ?case by simp
next
  case (Cons p ds)
  let ?fn = "Join sy p (makeFilename dg False)"
  obtain b err w1 where r: "ReadFile ?fn w = ((b, err), w1)"
    by (cases "ReadFile ?fn w") auto
  have w1: "files w1 = files w" "inner w1 = inner w" "trace w1 = trace w @ [EvReadFile ?fn]"
    using ReadFile_frame [of ?fn w] r by simp_all
  show ?case
  proof (cases "err = None \<or> \<not> IsNotExist err")
    case True
    then have "snd (GetManifest_dirs sy dg (p # ds) w) = w1"
      using r by (auto simp add: Let_def)
    then show ?thesis
      using w1 by simp
  next
    case False
    then have "err = Some (Errno ENOENT)"
      by (simp add: IsNotExist_def)
    then have "GetManifest_dirs sy dg (p # ds) w = GetManifest_dirs sy dg ds w1"
      using r by (simp add: Let_def IsNotExist_def)
    moreover obtain tr where "trace (snd (GetManifest_dirs sy dg ds w1)) = trace w1 @ tr"
      and "\<forall>e \<in> set tr. \<not> changes_files e"
      using Cons.IH [of w1] by blast
    ultimately show ?thesis
      using Cons.IH [of w1] w1 by simp
  qed
qed

lemma source_GetManifest_frame:
  "files (snd (source_GetManifest s dgo w)) = files w \<and>
   trace (snd (source_GetManifest s dgo w))
     = trace w @ [EvInner (GetManifestCall dgo) (snd (snd (fst (src_GetManifest s dgo (inner w)))))] \<and>
   fst (source_GetManifest s dgo w) = fst (src_GetManifest s dgo (inner w))"
  by (simp add: source_GetManifest_def split: prod.splits)

lemma GetManifest_frame:
  "files (snd (GetManifest sy s dirs dgo w)) = files w \<and>
   (\<forall>e \<in> set (events_since w (snd (GetManifest sy s dirs dgo w))). \<not> changes_files e)"
proof (cases dgo)
  case None
  then show ?thesis
    using source_GetManifest_frame [of s None w]
    by (simp add: GetManifest_def events_since_def)
next
  case (Some dg)
  obtain r w1 where g: "GetManifest_dirs sy dg dirs w = (r, w1)"
    by (cases "GetManifest_dirs sy dg dirs w")
  obtain tr where w1: "files w1 = files w" "inner w1 = inner w" "trace w1 = trace w @ tr"
    "\<forall>e \<in> set tr. \<not> changes_files e"
    using GetManifest_dirs_frame [of sy dg dirs w] g by auto
  show ?thesis
  proof (cases r)
    case None
    then have "GetManifest sy s dirs dgo w = source_GetManifest s dgo w1"
      using Some g by (simp add: GetManifest_def)
    then show ?thesis
      using source_GetManifest_frame [of s dgo w1] w1
      by (simp add: events_since_def)
  next
    case (Some a)
    then have "GetManifest sy s dirs dgo w = (a, w1)"
      using \<open>dgo = Some dg\<close> g by (simp add: GetManifest_def)
    then show ?thesis
      using w1 by (simp add: events_since_def)
  qed
qed

lemma os_Open_trace_update [simp]:
  "fst (os_Open name (w\<lparr>trace := tr\<rparr>)) = fst (os_Open name w)"
  by (simp add: os_Open_def)

lemma os_Open_snd: "snd (os_Open name w) = emit (EvOpen name) w"
  by (simp add: os_Open_def)

lemma os_Open_at:
  assumes "fst (os_Open name w) = r"
  shows "os_Open name (w\<lparr>trace := trace w @ es\<rparr>) = (r, w\<lparr>trace := trace w @ (es @ [EvOpen name])\<rparr>)"
  using assms by (simp add: prod_eq_iff os_Open_snd emit_def)

lemma os_Open_cases:
  "(\<exists>f. fst (os_Open name w) = (Some f, None)) \<or> (\<exists>e. fst (os_Open name w) = (None, Some (Errno e)))"
  by (simp add: os_Open_def split: option.splits sum.splits)

lemma GetBlob_variants_miss:
  assumes "\<forall>c \<in> set cs. fst (os_Open (Join sy d (makeFilename (Digest bi) c)) w) = (None, Some (Errno ENOENT))"
  shows "GetBlob_variants sy bi sz d cs (w\<lparr>trace := trace w @ es\<rparr>) =
     (None, w\<lparr>trace := trace w @ es @ map (\<lambda>c. EvOpen (Join sy d (makeFilename (Digest bi) c))) cs\<rparr>)"
  using assms
proof (induction cs arbitrary: es)
  case Nil
  show ?case by simp
next
  case (Cons c cs)
  let ?fn = "Join sy d (makeFilename (Digest bi) c)"
  have o: "os_Open ?fn (w\<lparr>trace := trace w @ es\<rparr>)
      = ((None, Some (Errno ENOENT)), w\<lparr>trace := trace w @ (es @ [EvOpen ?fn])\<rparr>)"
    using Cons.prems by (intro os_Open_at) simp
  have rest: "\<forall>c \<in> set cs. fst (os_Open (Join sy d (makeFilename (Digest bi) c)) w) = (None, Some (Errno ENOENT))"
    using Cons.prems by simp
  show ?case
    using Cons.IH [OF rest, of "es @ [EvOpen ?fn]"]
    by (simp add: o Let_def IsNotExist_def)
qed

lemma GetBlob_dirs_miss:
  assumes "\<forall>d \<in> set ds. \<forall>c \<in> set [False, True].
      fst (os_Open (Join sy d (makeFilename (Digest bi) c)) w) = (None, Some (Errno ENOENT))"
  shows "GetBlob_dirs sy bi sz ds (w\<lparr>trace := trace w @ es\<rparr>) =
     (None, w\<lparr>trace := trace w @ es @
        concat (map (\<lambda>d. map (\<lambda>c. EvOpen (Join sy d (makeFilename (Digest bi) c))) [False, True]) ds)\<rparr>)"
  using assms
proof (induction ds arbitrary: es)
  case Nil
  show ?case by simp
next
  case (Cons d ds)
  have here: "\<forall>c \<in> set [False, True].
      fst (os_Open (Join sy d (makeFilename (Digest bi) c)) w) = (None, Some (Errno ENOENT))"
    and rest: "\<forall>d \<in> set ds. \<forall>c \<in> set [False, True].
      fst (os_Open (Join sy d (makeFilename (Digest bi) c)) w) = (None, Some (Errno ENOENT))"
    using Cons.prems by simp_all
  note v = GetBlob_variants_miss [OF here, where sz = sz and es = es]
  show ?case
    using Cons.IH [OF rest, of "es @ map (\<lambda>c. EvOpen (Join sy d (makeFilename (Digest bi) c))) [False, True]"]
    by (simp only: GetBlob_dirs.simps v) simp
qed

lemma GetBlob_variants_result:
  assumes "GetBlob_variants sy bi sz d cs w = (Some (f, n, err), w')"
  shows "(err = None \<and> f \<noteq> None \<and> n = sz) \<or>
         (\<exists>p x. err = Some (Wrapped ''error checking for cache file %q'' [p] (Errno x)) \<and> x \<noteq> ENOENT)"
  using assms
proof (induction cs arbitrary: w)
  case Nil
  then show ?case by simp
next
  case (Cons c cs)
  let ?fn = "Join sy d (makeFilename (Digest bi) c)"
  from os_Open_cases [of ?fn w] show ?case
  proof
    assume "\<exists>g. fst (os_Open ?fn w) = (Some g, None)"
    then obtain g w1 where "os_Open ?fn w = ((Some g, None), w1)"
      by (cases "os_Open ?fn w") auto
    with Cons.prems show ?thesis
      by (auto simp add: Let_def)
  next
    assume "\<exists>e. fst (os_Open ?fn w) = (None, Some (Errno e))"
    then obtain e w1 where o: "os_Open ?fn w = ((None, Some (Errno e)), w1)"
      by (cases "os_Open ?fn w") auto
    show ?thesis
    proof (cases "e = ENOENT")
      case True
      with Cons.prems o have "GetBlob_variants sy bi sz d cs w1 = (Some (f, n, err), w')"
        by (simp add: Let_def IsNotExist_def)
      then show ?thesis by (rule Cons.IH)
    next
      case False
      with Cons.prems o show ?thesis
        by (auto simp add: Let_def IsNotExist_def Wrapf_def)
    qed
  qed
qed

lemma GetBlob_dirs_result:
  assumes "GetBlob_dirs sy bi sz ds w = (Some (f, n, err), w')"
  shows "(err = None \<and> f \<noteq> None \<and> n = sz) \<or>
         (\<exists>p x. err = Some (Wrapped ''error checking for cache file %q'' [p] (Errno x)) \<and> x \<noteq> ENOENT)"
  using assms
proof (induction ds arbitrary: w)
  case Nil
  then show ?case by simp
next
  case (Cons d ds)
  obtain r w1 where v: "GetBlob_variants sy bi sz d [False, True] w = (r, w1)"
    by (cases "GetBlob_variants sy bi sz d [False, True] w")
  show ?case
  proof (cases r)
    case None
    with Cons.prems v have "GetBlob_dirs sy bi sz ds w1 = (Some (f, n, err), w')"
      by (simp only: GetBlob_dirs.simps) simp
    then show ?thesis by (rule Cons.IH)
  next
    case (Some a)
    with Cons.prems v have "GetBlob_variants sy bi sz d [False, True] w = (Some (f, n, err), w')"
      by (simp only: GetBlob_dirs.simps) simp
    then show ?thesis by (rule GetBlob_variants_result)
  qed
qed

lemma HasBlob_variants_world:
  "\<exists>tr. snd (HasBlob_variants sy bi d cs w) = w\<lparr>trace := trace w @ tr\<rparr>"
proof (induction cs arbitrary: w)
  case Nil
  have "snd (HasBlob_variants sy bi d [] w) = w\<lparr>trace := trace w @ []\<rparr>" by simp
  then show ?case by blast
next
  case (Cons c cs)
  let ?fn = "Join sy d (makeFilename (Digest bi) c)"
  let ?w1 = "w\<lparr>trace := trace w @ [EvStat ?fn]\<rparr>"
  obtain fi err where st: "os_Stat ?fn w = ((fi, err), ?w1)"
    by (cases "fst (os_Stat ?fn w)") (simp add: os_Stat_def emit_def)
  obtain tr where ih: "snd (HasBlob_variants sy bi d cs ?w1) = ?w1\<lparr>trace := trace ?w1 @ tr\<rparr>"
    using Cons.IH [of ?w1] by blast
  have "snd (HasBlob_variants sy bi d (c # cs) w) = ?w1 \<or>
        snd (HasBlob_variants sy bi d (c # cs) w) = snd (HasBlob_variants sy bi d cs ?w1)"
    by (simp add: st Let_def)
  then have "snd (HasBlob_variants sy bi d (c # cs) w) = w\<lparr>trace := trace w @ [EvStat ?fn]\<rparr> \<or>
        snd (HasBlob_variants sy bi d (c # cs) w) = w\<lparr>trace := trace w @ (EvStat ?fn # tr)\<rparr>"
    by (simp add: ih)
  then show ?case by blast
qed

lemma HasBlob_dirs_world:
  "\<exists>tr. snd (HasBlob_dirs sy bi ds w) = w\<lparr>trace := trace w @ tr\<rparr>"
proof (induction ds arbitrary: w)
  case Nil
  have "snd (HasBlob_dirs sy bi [] w) = w\<lparr>trace := trace w @ []\<rparr>" by simp
  then show ?case by blast
next
  case (Cons d ds)
  obtain t1 where v: "snd (HasBlob_variants sy bi d [False, True] w) = w\<lparr>trace := trace w @ t1\<rparr>"
    using HasBlob_variants_world by blast
  let ?w1 = "w\<lparr>trace := trace w @ t1\<rparr>"
  obtain t2 where ih: "snd (HasBlob_dirs sy bi ds ?w1) = ?w1\<lparr>trace := trace ?w1 @ t2\<rparr>"
    using Cons.IH [of ?w1] by blast
  obtain r where r: "HasBlob_variants sy bi d [False, True] w = (r, ?w1)"
    using v by (cases "HasBlob_variants sy bi d [False, True] w") simp
  have "snd (HasBlob_dirs sy bi (d # ds) w) = w\<lparr>trace := trace w @ t1\<rparr> \<or>
        snd (HasBlob_dirs sy bi (d # ds) w) = w\<lparr>trace := trace w @ (t1 @ t2)\<rparr>"
    using ih by (cases r) (simp_all only: HasBlob_dirs.simps r, simp_all)
  then show ?case by blast
qed

lemma HasBlob_world:
  "\<exists>tr. snd (HasBlob sy ds bi w) = w\<lparr>trace := trace w @ tr\<rparr>"
proof (cases "Digest bi = []")
  case True
  then have "snd (HasBlob sy ds bi w) = w\<lparr>trace := trace w @ []\<rparr>"
    by (simp add: HasBlob_def)
  then show ?thesis by blast
next
  case False
  obtain tr where "snd (HasBlob_dirs sy bi ds w) = w\<lparr>trace := trace w @ tr\<rparr>"
    using HasBlob_dirs_world by blast
  then have "snd (HasBlob sy ds bi w) = w\<lparr>trace := trace w @ tr\<rparr>"
    using False
    by (cases "HasBlob_dirs sy bi ds w"; cases "fst (HasBlob_dirs sy bi ds w)")
       (simp_all add: HasBlob_def)
  then show ?thesis by blast
qed

lemma GetBlob_variants_inner:
  "inner (snd (GetBlob_variants sy bi sz d cs w)) = inner w"
  by (induction cs arbitrary: w) (simp_all add: Let_def os_Open_def split: prod.splits)

lemma GetBlob_dirs_inner:
  "inner (snd (GetBlob_dirs sy bi sz ds w)) = inner w"
proof (induction ds arbitrary: w)
  case Nil
  show ?case by simp
next
  case (Cons d ds)
  obtain r w1 where v: "GetBlob_variants sy bi sz d [False, True] w = (r, w1)"
    by (cases "GetBlob_variants sy bi sz d [False, True] w")
  have i: "inner w1 = inner w"
    using GetBlob_variants_inner [of sy bi sz d "[False, True]" w] v by simp
  show ?case
    using Cons.IH [of w1] i by (cases r) (simp_all only: GetBlob_dirs.simps v, simp_all)
qed

lemma source_GetBlob_frame:
  "fst (source_GetBlob s bi w) = fst (src_GetBlob s bi (inner w)) \<and>
   trace (snd (source_GetBlob s bi w))
     = trace w @ [EvInner (GetBlobCall bi) (snd (snd (fst (src_GetBlob s bi (inner w)))))]"
  by (simp add: source_GetBlob_def split: prod.splits)

lemma GetBlob_variants_error:
  assumes "\<forall>c' \<in> set cpre. fst (os_Open (Join sy d (makeFilename (Digest bi) c')) w) = (None, Some (Errno ENOENT))"
    and "fst (os_Open (Join sy d (makeFilename (Digest bi) c)) w) = (None, Some (Errno x))"
    and "x \<noteq> ENOENT"
  shows "GetBlob_variants sy bi sz d (cpre @ c # cpost) (w\<lparr>trace := trace w @ es\<rparr>) =
     (Some (None, -1, Some (Wrapped ''error checking for cache file %q''
                              [Join sy d (Join sy d (makeFilename (Digest bi) c))] (Errno x))),
      w\<lparr>trace := trace w @ es @ map (\<lambda>c. EvOpen (Join sy d (makeFilename (Digest bi) c))) (cpre @ [c])\<rparr>)"
  using assms(1)
proof (induction cpre arbitrary: es)
  case Nil
  let ?fn = "Join sy d (makeFilename (Digest bi) c)"
  have o: "os_Open ?fn (w\<lparr>trace := trace w @ es\<rparr>)
      = ((None, Some (Errno x)), w\<lparr>trace := trace w @ (es @ [EvOpen ?fn])\<rparr>)"
    using assms(2) by (rule os_Open_at)
  show ?case
    using assms(3) by (simp add: o Let_def IsNotExist_def Wrapf_def)
next
  case (Cons c' cpre)
  let ?fn = "Join sy d (makeFilename (Digest bi) c')"
  have o: "os_Open ?fn (w\<lparr>trace := trace w @ es\<rparr>)
      = ((None, Some (Errno ENOENT)), w\<lparr>trace := trace w @ (es @ [EvOpen ?fn])\<rparr>)"
    using Cons.prems by (intro os_Open_at) simp
  have rest: "\<forall>c' \<in> set cpre. fst (os_Open (Join sy d (makeFilename (Digest bi) c')) w) = (None, Some (Errno ENOENT))"
    using Cons.prems by simp
  show ?case
    using Cons.IH [OF rest, of "es @ [EvOpen ?fn]"]
    by (simp add: o Let_def IsNotExist_def)
qed

lemma GetBlob_dirs_error:
  assumes "\<forall>p \<in> set dpre. \<forall>c \<in> set [False, True].
      fst (os_Open (Join sy p (makeFilename (Digest bi) c)) w) = (None, Some (Errno ENOENT))"
    and "[False, True] = cpre @ c # cpost"
    and "\<forall>c' \<in> set cpre. fst (os_Open (Join sy d0 (makeFilename (Digest bi) c')) w) = (None, Some (Errno ENOENT))"
    and "fst (os_Open (Join sy d0 (makeFilename (Digest bi) c)) w) = (None, Some (Errno x))"
    and "x \<noteq> ENOENT"
  shows "GetBlob_dirs sy bi sz (dpre @ d0 # dpost) (w\<lparr>trace := trace w @ es\<rparr>) =
     (Some (None, -1, Some (Wrapped ''error checking for cache file %q''
                              [Join sy d0 (Join sy d0 (makeFilename (Digest bi) c))] (Errno x))),
      w\<lparr>trace := trace w @ es @
          concat (map (\<lambda>p. map (\<lambda>c. EvOpen (Join sy p (makeFilename (Digest bi) c))) [False, True]) dpre) @
          map (\<lambda>c. EvOpen (Join sy d0 (makeFilename (Digest bi) c))) (cpre @ [c])\<rparr>)"
  using assms(1)
proof (induction dpre arbitrary: es)
  case Nil
  note v = GetBlob_variants_error [OF assms(3,4,5), where cpost = cpost and es = es and sz = sz]
  show ?case
    by (simp only: append_Nil GetBlob_dirs.simps assms(2) v) simp
next
  case (Cons p dpre)
  have here: "\<forall>c \<in> set [False, True].
      fst (os_Open (Join sy p (makeFilename (Digest bi) c)) w) = (None, Some (Errno ENOENT))"
    and rest: "\<forall>p \<in> set dpre. \<forall>c \<in> set [False, True].
      fst (os_Open (Join sy p (makeFilename (Digest bi) c)) w) = (None, Some (Errno ENOENT))"
    using Cons.prems by simp_all
  note v = GetBlob_variants_miss [OF here, where sz = sz and es = es]
  show ?case
    using Cons.IH [OF rest, of "es @ map (\<lambda>c. EvOpen (Join sy p (makeFilename (Digest bi) c))) [False, True]"]
    by (simp only: append_Cons GetBlob_dirs.simps v) simp
qed

lemma HasBlob_variants_stats:
  "\<exists>tr. snd (HasBlob_variants sy bi d cs w) = w\<lparr>trace := trace w @ tr\<rparr> \<and> (\<forall>e \<in> set tr. \<exists>n. e = EvStat n)"
proof (induction cs arbitrary: w)
  case Nil
  have "snd (HasBlob_variants sy bi d [] w) = w\<lparr>trace := trace w @ []\<rparr>" by simp
  then show ?case by fastforce
next
  case (Cons c cs)
  let ?fn = "Join sy d (makeFilename (Digest bi) c)"
  let ?w1 = "w\<lparr>trace := trace w @ [EvStat ?fn]\<rparr>"
  obtain fi err where st: "os_Stat ?fn w = ((fi, err), ?w1)"
    by (cases "fst (os_Stat ?fn w)") (simp add: os_Stat_def emit_def)
  obtain tr where ih: "snd (HasBlob_variants sy bi d cs ?w1) = ?w1\<lparr>trace := trace ?w1 @ tr\<rparr>"
    and only: "\<forall>e \<in> set tr. \<exists>n. e = EvStat n"
    using Cons.IH [of ?w1] by blast
  have "snd (HasBlob_variants sy bi d (c # cs) w) = ?w1 \<or>
        snd (HasBlob_variants sy bi d (c # cs) w) = snd (HasBlob_variants sy bi d cs ?w1)"
    by (simp add: st Let_def)
  then have "snd (HasBlob_variants sy bi d (c # cs) w) = w\<lparr>trace := trace w @ [EvStat ?fn]\<rparr> \<or>
        snd (HasBlob_variants sy bi d (c # cs) w) = w\<lparr>trace := trace w @ (EvStat ?fn # tr)\<rparr>"
    by (simp add: ih)
  moreover have "\<forall>e \<in> set [EvStat ?fn]. \<exists>n. e = EvStat n" by simp
  moreover have "\<forall>e \<in> set (EvStat ?fn # tr). \<exists>n. e = EvStat n" using only by simp
  ultimately show ?case by blast
qed

lemma HasBlob_dirs_stats:
  "\<exists>tr. snd (HasBlob_dirs sy bi ds w) = w\<lparr>trace := trace w @ tr\<rparr> \<and> (\<forall>e \<in> set tr. \<exists>n. e = EvStat n)"
proof (induction ds arbitrary: w)
  case Nil
  have "snd (HasBlob_dirs sy bi [] w) = w\<lparr>trace := trace w @ []\<rparr>" by simp
  then show ?case by fastforce
next
  case (Cons d ds)
  obtain t1 where v: "snd (HasBlob_variants sy bi d [False, True] w) = w\<lparr>trace := trace w @ t1\<rparr>"
    and o1: "\<forall>e \<in> set t1. \<exists>n. e = EvStat n"
    using HasBlob_variants_stats by blast
  let ?w1 = "w\<lparr>trace := trace w @ t1\<rparr>"
  obtain t2 where ih: "snd (HasBlob_dirs sy bi ds ?w1) = ?w1\<lparr>trace := trace ?w1 @ t2\<rparr>"
    and o2: "\<forall>e \<in> set t2. \<exists>n. e = EvStat n"
    using Cons.IH [of ?w1] by blast
  obtain r where r: "HasBlob_variants sy bi d [False, True] w = (r, ?w1)"
    using v by (cases "HasBlob_variants sy bi d [False, True] w") simp
  have "snd (HasBlob_dirs sy bi (d # ds) w) = w\<lparr>trace := trace w @ t1\<rparr> \<or>
        snd (HasBlob_dirs sy bi (d # ds) w) = w\<lparr>trace := trace w @ (t1 @ t2)\<rparr>"
    using ih by (cases r) (simp_all only: HasBlob_dirs.simps r, simp_all)
  moreover have "\<forall>e \<in> set (t1 @ t2). \<exists>n. e = EvStat n" using o1 o2 by auto
  ultimately show ?case using o1 by blast
qed

lemma HasBlob_stats:
  "\<exists>tr. snd (HasBlob sy ds bi w) = w\<lparr>trace := trace w @ tr\<rparr> \<and> (\<forall>e \<in> set tr. \<exists>n. e = EvStat n)"
proof (cases "Digest bi = []")
  case True
  then have "snd (HasBlob sy ds bi w) = w\<lparr>trace := trace w @ []\<rparr>"
    by (simp add: HasBlob_def)
  then show ?thesis by fastforce
next
  case False
  obtain tr where "snd (HasBlob_dirs sy bi ds w) = w\<lparr>trace := trace w @ tr\<rparr>"
    and o: "\<forall>e \<in> set tr. \<exists>n. e = EvStat n"
    using HasBlob_dirs_stats by blast
  then have "snd (HasBlob sy ds bi w) = w\<lparr>trace := trace w @ tr\<rparr>"
    using False
    by (cases "HasBlob_dirs sy bi ds w"; cases "fst (HasBlob_dirs sy bi ds w)")
       (simp_all add: HasBlob_def)
  with o show ?thesis by blast
qed

subsection \<open>The scan of ReapplyBlob\<close>

lemma os_Open_inner_update [simp]:
  "fst (os_Open name (w\<lparr>inner := i\<rparr>)) = fst (os_Open name w)"
  by (simp add: os_Open_def)

lemma ReapplyBlob_variants_miss:
  assumes "\<forall>c \<in> set cs. \<exists>e. fst (os_Open (Join sy d (makeFilename (Digest info) c)) w) = (None, Some e)"
  shows "ReapplyBlob_variants sy dst info d cs (w\<lparr>trace := trace w @ es\<rparr>) =
     (None, w\<lparr>trace := trace w @ es @ map (\<lambda>c. EvOpen (Join sy d (makeFilename (Digest info) c))) cs\<rparr>)"
  using assms
proof (induction cs arbitrary: es)
  case Nil
  show ?case by simp
next
  case (Cons c cs)
  let ?fn = "Join sy d (makeFilename (Digest info) c)"
  obtain e where "fst (os_Open ?fn w) = (None, Some e)"
    using Cons.prems by auto
  then have o: "os_Open ?fn (w\<lparr>trace := trace w @ es\<rparr>)
      = ((None, Some e), w\<lparr>trace := trace w @ (es @ [EvOpen ?fn])\<rparr>)"
    by (rule os_Open_at)
  have rest: "\<forall>c \<in> set cs. \<exists>e. fst (os_Open (Join sy d (makeFilename (Digest info) c)) w) = (None, Some e)"
    using Cons.prems by simp
  show ?case
    using Cons.IH [OF rest, of "es @ [EvOpen ?fn]"]
    by (simp add: o Let_def)
qed

lemma ReapplyBlob_variants_hit:
  assumes "\<forall>c' \<in> set cpre. \<exists>e. fst (os_Open (Join sy d (makeFilename (Digest info) c')) w) = (None, Some e)"
    and "fst (os_Open (Join sy d (makeFilename (Digest info) c)) w) = (Some f, None)"
    and "dest_PutBlob dst f info c (inner w) = (reply, st)"
  shows "ReapplyBlob_variants sy dst info d (cpre @ c # cpost) (w\<lparr>trace := trace w @ es\<rparr>) =
     (Some (p_info reply, p_err reply),
      w\<lparr>trace := trace w @ es @
          map (\<lambda>c. EvOpen (Join sy d (makeFilename (Digest info) c))) (cpre @ [c]) @
          [EvInner (PutBlobCall f info c) (p_err reply),
           EvClose (Join sy d (makeFilename (Digest info) c))],
        inner := st\<rparr>)"
  using assms(1)
proof (induction cpre arbitrary: es)
  case Nil
  let ?fn = "Join sy d (makeFilename (Digest info) c)"
  let ?w1 = "w\<lparr>trace := trace w @ (es @ [EvOpen ?fn])\<rparr>"
  have o: "os_Open ?fn (w\<lparr>trace := trace w @ es\<rparr>) = ((Some f, None), ?w1)"
    using assms(2) by (rule os_Open_at)
  have "dest_PutBlob dst f info c (inner ?w1) = (reply, st)"
    using assms(3) by simp
  then have p: "destination_PutBlob sy dst (Reader f) info c ?w1
      = (reply, emit (EvInner (PutBlobCall f info c) (p_err reply)) (?w1\<lparr>inner := st\<rparr>))"
    by (rule destination_PutBlob_Reader)
  show ?case
    by (simp add: o p Let_def emit_def)
next
  case (Cons c' cpre)
  let ?fn = "Join sy d (makeFilename (Digest info) c')"
  obtain e where "fst (os_Open ?fn w) = (None, Some e)"
    using Cons.prems by auto
  then have o: "os_Open ?fn (w\<lparr>trace := trace w @ es\<rparr>)
      = ((None, Some e), w\<lparr>trace := trace w @ (es @ [EvOpen ?fn])\<rparr>)"
    by (rule os_Open_at)
  have rest: "\<forall>c' \<in> set cpre. \<exists>e. fst (os_Open (Join sy d (makeFilename (Digest info) c')) w) = (None, Some e)"
    using Cons.prems by simp
  show ?case
    using Cons.IH [OF rest, of "es @ [EvOpen ?fn]"]
    by (simp add: o Let_def)
qed

lemma ReapplyBlob_dirs_miss:
  assumes "\<forall>p \<in> set ds. \<forall>c \<in> set [False, True].
      \<exists>e. fst (os_Open (Join sy p (makeFilename (Digest info) c)) w) = (None, Some e)"
  shows "ReapplyBlob_dirs sy dst info ds (w\<lparr>trace := trace w @ es\<rparr>) =
     (None, w\<lparr>trace := trace w @ es @
        concat (map (\<lambda>p. map (\<lambda>c. EvOpen (Join sy p (makeFilename (Digest info) c))) [False, True]) ds)\<rparr>)"
  using assms
proof (induction ds arbitrary: es)
  case Nil
  show ?case by simp
next
  case (Cons p ds)
  have here: "\<forall>c \<in> set [False, True].
      \<exists>e. fst (os_Open (Join sy p (makeFilename (Digest info) c)) w) = (None, Some e)"
    and rest: "\<forall>p \<in> set ds. \<forall>c \<in> set [False, True].
      \<exists>e. fst (os_Open (Join sy p (makeFilename (Digest info) c)) w) = (None, Some e)"
    using Cons.prems by simp_all
  note v = ReapplyBlob_variants_miss [OF here, where dst = dst and es = es]
  show ?case
    using Cons.IH [OF rest, of "es @ map (\<lambda>c. EvOpen (Join sy p (makeFilename (Digest info) c))) [False, True]"]
    by (simp only: ReapplyBlob_dirs.simps v) simp
qed

lemma ReapplyBlob_dirs_hit:
  assumes "\<forall>p \<in> set dpre. \<forall>c \<in> set [False, True].
      \<exists>e. fst (os_Open (Join sy p (makeFilename (Digest info) c)) w) = (None, Some e)"
    and "[False, True] = cpre @ c # cpost"
    and "\<forall>c' \<in> set cpre. \<exists>e. fst (os_Open (Join sy d0 (makeFilename (Digest info) c')) w) = (None, Some e)"
    and "fst (os_Open (Join sy d0 (makeFilename (Digest info) c)) w) = (Some f, None)"
    and "dest_PutBlob dst f info c (inner w) = (reply, st)"
  shows "ReapplyBlob_dirs sy dst info (dpre @ d0 # dpost) (w\<lparr>trace := trace w @ es\<rparr>) =
     (Some (p_info reply, p_err reply),
      w\<lparr>trace := trace w @ es @
          concat (map (\<lambda>p. map (\<lambda>c. EvOpen (Join sy p (makeFilename (Digest info) c))) [False, True]) dpre) @
          map (\<lambda>c. EvOpen (Join sy d0 (makeFilename (Digest info) c))) (cpre @ [c]) @
          [EvInner (PutBlobCall f info c) (p_err reply),
           EvClose (Join sy d0 (makeFilename (Digest info) c))],
        inner := st\<rparr>)"
  using assms(1)
proof (induction dpre arbitrary: es)
  case Nil
  note v = ReapplyBlob_variants_hit [OF assms(3,4,5), where cpost = cpost and es = es]
  show ?case
    by (simp only: append_Nil ReapplyBlob_dirs.simps assms(2) v) simp
next
  case (Cons p dpre)
  have here: "\<forall>c \<in> set [False, True].
      \<exists>e. fst (os_Open (Join sy p (makeFilename (Digest info) c)) w) = (None, Some e)"
    and rest: "\<forall>p \<in> set dpre. \<forall>c \<in> set [False, True].
      \<exists>e. fst (os_Open (Join sy p (makeFilename (Digest info) c)) w) = (None, Some e)"
    using Cons.prems by simp_all
  note v = ReapplyBlob_variants_miss [OF here, where dst = dst and es = es]
  show ?case
    using Cons.IH [OF rest, of "es @ map (\<lambda>c. EvOpen (Join sy p (makeFilename (Digest info) c))) [False, True]"]
    by (simp only: append_Cons ReapplyBlob_dirs.simps v) simp
qed

lemma destination_ReapplyBlob_at:
  assumes "inner w1 = i1"
  shows "destination_ReapplyBlob d info w1 =
     (fst (dest_ReapplyBlob d info i1),
      w1\<lparr>trace := trace w1 @ [EvInner (ReapplyBlobCall info) (snd (fst (dest_ReapplyBlob d info i1)))],
         inner := snd (dest_ReapplyBlob d info i1)\<rparr>)"
  using assms by (simp add: destination_ReapplyBlob_def emit_def split: prod.splits)

subsection \<open>Slices\<close>

lemma cache_dirs_array_store:
  "a \<noteq> sl_array (directories r) \<Longrightarrow> cache_dirs (array_store a i v h) r = cache_dirs h r"
  by (simp add: cache_dirs_def slice_elems_def array_store_def)

lemma append_fresh_elems:
  assumes "append_fresh s h = (s', h')"
  shows "sl_array s' = next_array h" and "next_array h' = Suc (next_array h)"
    and "slice_elems h' s' = slice_elems h s"
    and "\<And>t. sl_array t < next_array h \<Longrightarrow> slice_elems h' t = slice_elems h t"
  using assms by (auto simp add: append_fresh_def slice_elems_def)

subsection \<open>C1: a blob written through PutBlob is read back\<close>






subsection \<open>C2: a size mismatch in HasBlob\<close>

text \<open>
  C2 says that a file of another size is a miss of that candidate only and that the
  scan goes on. The code at the failing input: the first directory holds a file of two
  bytes under the digest, the second a file of three bytes, and the descriptor asks
  for three bytes. After the mismatch the error of \<^verbatim>\<open>os.Stat\<close> is nil, which is not a
  not-found error, so the branch that reports file system errors returns: absent, with
  the wrapped nil as its error. The second directory is never looked at.
\<close>

theorem HasBlob_size_mismatch_stops_scan:
  "files (world0 [(''c0/D'', File ''ab''), (''c1/D'', File ''abc'')] []) ''c1/D'' = Some (File ''abc'') \<and>
   HasBlob quiet [''c0'', ''c1''] \<lparr>Digest = ''D'', Size = 3\<rparr>
     (world0 [(''c0/D'', File ''ab''), (''c1/D'', File ''abc'')] [])
   = ((False, -1, None),
      emit (EvStat ''c0/D'') (world0 [(''c0/D'', File ''ab''), (''c1/D'', File ''abc'')] []))"
  by (simp add: HasBlob_def quiet_def world0_def unix_Join_def makeFilename_def os_Stat_def
      File_def IsNotExist_def Wrapf_def Let_def)

subsection \<open>C8: a config blob and a layer under one digest\<close>




subsection \<open>C3: what PutBlob returns\<close>




subsection \<open>C4: the rename comes after the accepted write\<close>




subsection \<open>C9: a blob without a digest\<close>

text \<open>
  C9. For every PutBlob call whose descriptor has an empty digest the call returns,
  the only event of the execution is the call of the wrapped destination's PutBlob
  with the caller's stream itself (no temporary file is created and nothing is
  written), and the files are what they were.
\<close>

theorem PutBlob_anonymous_blob:
  assumes "Digest inputInfo = []"
  shows "\<exists>reply st w'.
           dest_PutBlob d strm inputInfo isConfig (inner w) = (reply, st) \<and>
           PutBlob sy d dirs strm inputInfo isConfig w = Some (PutBlob_return reply, w') \<and>
           files w' = files w \<and> inner w' = st \<and>
           events_since w w' = [EvInner (PutBlobCall strm inputInfo isConfig) (p_err reply)]"
proof -
  obtain reply st where c: "dest_PutBlob d strm inputInfo isConfig (inner w) = (reply, st)"
    by (cases "dest_PutBlob d strm inputInfo isConfig (inner w)")
  let ?w' = "emit (EvInner (PutBlobCall strm inputInfo isConfig) (p_err reply)) (w\<lparr>inner := st\<rparr>)"
  have "PutBlob sy d dirs strm inputInfo isConfig w = Some (PutBlob_return reply, ?w')"
    by (rule PutBlob_anon [OF assms c])
  moreover have "files ?w' = files w" and "inner ?w' = st"
    and "events_since w ?w' = [EvInner (PutBlobCall strm inputInfo isConfig) (p_err reply)]"
    by (simp_all add: events_since_def)
  ultimately show ?thesis
    using c by blast
qed

text \<open>The hypothesis holds for a descriptor with the empty digest.\<close>

theorem PutBlob_anonymous_blob_witness:
  "files (snd (the (PutBlob quiet store_dest [''c0''] (bytes_stream ''abc'') \<lparr>Digest = [], Size = 3\<rparr> False
      (world0 [(''c0/D'', File ''xy'')] [])))) = files (world0 [(''c0/D'', File ''xy'')] []) \<and>
   events_since (world0 [(''c0/D'', File ''xy'')] [])
     (snd (the (PutBlob quiet store_dest [''c0''] (bytes_stream ''abc'') \<lparr>Digest = [], Size = 3\<rparr> False
      (world0 [(''c0/D'', File ''xy'')] []))))
     = [EvInner (PutBlobCall (bytes_stream ''abc'') \<lparr>Digest = [], Size = 3\<rparr> False) None]"
proof -
  have h: "Digest \<lparr>Digest = [], Size = 3\<rparr> = []" by simp
  obtain reply st w' where
    c: "dest_PutBlob store_dest (bytes_stream ''abc'') \<lparr>Digest = [], Size = 3\<rparr> False
          (inner (world0 [(''c0/D'', File ''xy'')] [])) = (reply, st)"
    and p: "PutBlob quiet store_dest [''c0''] (bytes_stream ''abc'') \<lparr>Digest = [], Size = 3\<rparr> False
          (world0 [(''c0/D'', File ''xy'')] []) = Some (PutBlob_return reply, w')"
    and f: "files w' = files (world0 [(''c0/D'', File ''xy'')] [])"
    and e: "events_since (world0 [(''c0/D'', File ''xy'')] []) w'
          = [EvInner (PutBlobCall (bytes_stream ''abc'') \<lparr>Digest = [], Size = 3\<rparr> False) (p_err reply)]"
    using PutBlob_anonymous_blob [OF h, where d = store_dest and strm = "bytes_stream ''abc''"
        and isConfig = False and w = "world0 [(''c0/D'', File ''xy'')] []" and sy = quiet
        and dirs = "[''c0'']"]
    by blast
  have "p_err reply = None"
    using c by (auto simp add: store_dest_def bytes_stream_def)
  with p f e show ?thesis by simp
qed

subsection \<open>C5: the three steps of ReapplyBlob\<close>

text \<open>
  C5. Every ReapplyBlob call asks the wrapped destination's HasBlob first. When that
  call returns without error: if the destination has the blob, ReapplyBlob returns
  what the destination's ReapplyBlob returns and opens no file; if it has not, the
  directories are scanned in order, in each the plain name before the config name,
  every open that fails is passed over whatever its error, and at the first file
  that opens ReapplyBlob returns what the destination's PutBlob returns on that
  file as its stream, with the config flag of the name that opened; when no
  candidate opens it returns what the destination's ReapplyBlob returns.
\<close>

theorem ReapplyBlob_three_steps:
  assumes has: "dest_HasBlob d info (inner w) = ((present, sz, None), i1)"
  shows "(present \<longrightarrow>
            fst (ReapplyBlob sy d dirs info w) = fst (dest_ReapplyBlob d info i1) \<and>
            events_since w (snd (ReapplyBlob sy d dirs info w))
              = [EvInner (HasBlobCall info) None,
                 EvInner (ReapplyBlobCall info) (snd (fst (dest_ReapplyBlob d info i1)))]) \<and>
         (\<not> present \<and> dirs = dpre @ d0 # dpost \<and>
          (\<forall>p \<in> set dpre. \<forall>c \<in> set [False, True].
             \<exists>e. fst (os_Open (Join sy p (makeFilename (Digest info) c)) w) = (None, Some e)) \<and>
          [False, True] = cpre @ c # cpost \<and>
          (\<forall>c' \<in> set cpre. \<exists>e. fst (os_Open (Join sy d0 (makeFilename (Digest info) c')) w) = (None, Some e)) \<and>
          fst (os_Open (Join sy d0 (makeFilename (Digest info) c)) w) = (Some f, None) \<longrightarrow>
            fst (ReapplyBlob sy d dirs info w)
              = (p_info (fst (dest_PutBlob d f info c i1)), p_err (fst (dest_PutBlob d f info c i1))) \<and>
            events_since w (snd (ReapplyBlob sy d dirs info w))
              = [EvInner (HasBlobCall info) None] @
                concat (map (\<lambda>p. map (\<lambda>c. EvOpen (Join sy p (makeFilename (Digest info) c))) [False, True]) dpre) @
                map (\<lambda>c. EvOpen (Join sy d0 (makeFilename (Digest info) c))) (cpre @ [c]) @
                [EvInner (PutBlobCall f info c) (p_err (fst (dest_PutBlob d f info c i1))),
                 EvClose (Join sy d0 (makeFilename (Digest info) c))]) \<and>
         (\<not> present \<and>
          (\<forall>p \<in> set dirs. \<forall>c \<in> set [False, True].
             \<exists>e. fst (os_Open (Join sy p (makeFilename (Digest info) c)) w) = (None, Some e)) \<longrightarrow>
            fst (ReapplyBlob sy d dirs info w) = fst (dest_ReapplyBlob d info i1) \<and>
            events_since w (snd (ReapplyBlob sy d dirs info w))
              = [EvInner (HasBlobCall info) None] @
                concat (map (\<lambda>p. map (\<lambda>c. EvOpen (Join sy p (makeFilename (Digest info) c))) [False, True]) dirs) @
                [EvInner (ReapplyBlobCall info) (snd (fst (dest_ReapplyBlob d info i1)))])"
proof -
  let ?w0 = "w\<lparr>inner := i1\<rparr>"
  let ?asked = "[EvInner (HasBlobCall info) None]"
  let ?w1 = "?w0\<lparr>trace := trace ?w0 @ ?asked\<rparr>"
  have 1: "fst (ReapplyBlob sy d dirs info w) = fst (dest_ReapplyBlob d info i1) \<and>
            events_since w (snd (ReapplyBlob sy d dirs info w))
              = [EvInner (HasBlobCall info) None,
                 EvInner (ReapplyBlobCall info) (snd (fst (dest_ReapplyBlob d info i1)))]"
    if present
  proof -
    have "inner ?w1 = i1" by simp
    note r = destination_ReapplyBlob_at [OF this, where d = d and info = info]
    show ?thesis
      using that r by (simp add: ReapplyBlob_def destination_HasBlob_def has emit_def events_since_def)
  qed
  have 2: "fst (ReapplyBlob sy d dirs info w)
              = (p_info (fst (dest_PutBlob d f info c i1)), p_err (fst (dest_PutBlob d f info c i1))) \<and>
            events_since w (snd (ReapplyBlob sy d dirs info w))
              = [EvInner (HasBlobCall info) None] @
                concat (map (\<lambda>p. map (\<lambda>c. EvOpen (Join sy p (makeFilename (Digest info) c))) [False, True]) dpre) @
                map (\<lambda>c. EvOpen (Join sy d0 (makeFilename (Digest info) c))) (cpre @ [c]) @
                [EvInner (PutBlobCall f info c) (p_err (fst (dest_PutBlob d f info c i1))),
                 EvClose (Join sy d0 (makeFilename (Digest info) c))]"
    if absent: "\<not> present" and dirs: "dirs = dpre @ d0 # dpost"
      and before: "\<forall>p \<in> set dpre. \<forall>c \<in> set [False, True].
             \<exists>e. fst (os_Open (Join sy p (makeFilename (Digest info) c)) w) = (None, Some e)"
      and split: "[False, True] = cpre @ c # cpost"
      and here: "\<forall>c' \<in> set cpre. \<exists>e. fst (os_Open (Join sy d0 (makeFilename (Digest info) c')) w) = (None, Some e)"
      and opens: "fst (os_Open (Join sy d0 (makeFilename (Digest info) c)) w) = (Some f, None)"
  proof -
    obtain reply st where p: "dest_PutBlob d f info c i1 = (reply, st)"
      by (cases "dest_PutBlob d f info c i1")
    have b0: "\<forall>p \<in> set dpre. \<forall>c \<in> set [False, True].
             \<exists>e. fst (os_Open (Join sy p (makeFilename (Digest info) c)) ?w0) = (None, Some e)"
      and h0: "\<forall>c' \<in> set cpre. \<exists>e. fst (os_Open (Join sy d0 (makeFilename (Digest info) c')) ?w0) = (None, Some e)"
      and o0: "fst (os_Open (Join sy d0 (makeFilename (Digest info) c)) ?w0) = (Some f, None)"
      and p0: "dest_PutBlob d f info c (inner ?w0) = (reply, st)"
      using before here opens p by simp_all
    note scan = ReapplyBlob_dirs_hit [OF b0 split h0 o0 p0, where dpost = dpost and es = ?asked]
    show ?thesis
      using absent scan p
      by (simp add: ReapplyBlob_def destination_HasBlob_def has emit_def dirs events_since_def)
  qed
  have 3: "fst (ReapplyBlob sy d dirs info w) = fst (dest_ReapplyBlob d info i1) \<and>
            events_since w (snd (ReapplyBlob sy d dirs info w))
              = [EvInner (HasBlobCall info) None] @
                concat (map (\<lambda>p. map (\<lambda>c. EvOpen (Join sy p (makeFilename (Digest info) c))) [False, True]) dirs) @
                [EvInner (ReapplyBlobCall info) (snd (fst (dest_ReapplyBlob d info i1)))]"
    if absent: "\<not> present"
      and none: "\<forall>p \<in> set dirs. \<forall>c \<in> set [False, True].
             \<exists>e. fst (os_Open (Join sy p (makeFilename (Digest info) c)) w) = (None, Some e)"
  proof -
    have n0: "\<forall>p \<in> set dirs. \<forall>c \<in> set [False, True].
             \<exists>e. fst (os_Open (Join sy p (makeFilename (Digest info) c)) ?w0) = (None, Some e)"
      using none by simp
    note scan = ReapplyBlob_dirs_miss [OF n0, where dst = d and es = ?asked]
    let ?w2 = "?w0\<lparr>trace := trace ?w0 @ ?asked @
        concat (map (\<lambda>p. map (\<lambda>c. EvOpen (Join sy p (makeFilename (Digest info) c))) [False, True]) dirs)\<rparr>"
    have "inner ?w2 = i1" by simp
    note r = destination_ReapplyBlob_at [OF this, where d = d and info = info]
    show ?thesis
      using absent scan r
      by (simp add: ReapplyBlob_def destination_HasBlob_def has emit_def events_since_def)
  qed
  from 1 2 3 show ?thesis by blast
qed

text \<open>
  The hypotheses hold for a destination without the blob and a cache directory that
  holds it under the config name only.
\<close>

theorem ReapplyBlob_three_steps_witness:
  "dest_HasBlob store_dest \<lparr>Digest = ''D'', Size = 3\<rparr> (inner (world0 [(''c0/D.config'', File ''abc'')] []))
     = ((False, -1, None), []) \<and>
   fst (os_Open ''c0/D'' (world0 [(''c0/D.config'', File ''abc'')] [])) = (None, Some (Errno ENOENT)) \<and>
   fst (os_Open ''c0/D.config'' (world0 [(''c0/D.config'', File ''abc'')] [])) = (Some (bytes_stream ''abc''), None) \<and>
   fst (ReapplyBlob quiet store_dest [''c0''] \<lparr>Digest = ''D'', Size = 3\<rparr>
          (world0 [(''c0/D.config'', File ''abc'')] [])) = (\<lparr>Digest = ''D'', Size = 3\<rparr>, None) \<and>
   events_since (world0 [(''c0/D.config'', File ''abc'')] [])
     (snd (ReapplyBlob quiet store_dest [''c0''] \<lparr>Digest = ''D'', Size = 3\<rparr>
          (world0 [(''c0/D.config'', File ''abc'')] [])))
     = [EvInner (HasBlobCall \<lparr>Digest = ''D'', Size = 3\<rparr>) None,
        EvOpen ''c0/D'', EvOpen ''c0/D.config'',
        EvInner (PutBlobCall (bytes_stream ''abc'') \<lparr>Digest = ''D'', Size = 3\<rparr> True) None,
        EvClose ''c0/D.config'']"
proof -
  let ?w = "world0 [(''c0/D.config'', File ''abc'')] [] :: blobs world"
  let ?info = "\<lparr>Digest = ''D'', Size = 3\<rparr>"
  have has: "dest_HasBlob store_dest ?info (inner ?w) = ((False, -1, None), [])"
    by (simp add: store_dest_def world0_def)
  have plain: "fst (os_Open ''c0/D'' ?w) = (None, Some (Errno ENOENT))"
    and cfg: "fst (os_Open ''c0/D.config'' ?w) = (Some (bytes_stream ''abc''), None)"
    by (simp_all add: os_Open_def world0_def File_def)
  have before: "\<forall>p \<in> set []. \<forall>c \<in> set [False, True].
      \<exists>e. fst (os_Open (Join quiet p (makeFilename (Digest ?info) c)) ?w) = (None, Some e)"
    by simp
  have split: "[False, True] = [False] @ True # []" by simp
  have here: "\<forall>c' \<in> set [False]. \<exists>e. fst (os_Open (Join quiet ''c0'' (makeFilename (Digest ?info) c')) ?w) = (None, Some e)"
    using plain by (simp add: quiet_def unix_Join_def makeFilename_def)
  have opens: "fst (os_Open (Join quiet ''c0'' (makeFilename (Digest ?info) True)) ?w) = (Some (bytes_stream ''abc''), None)"
    using cfg by (simp add: quiet_def unix_Join_def makeFilename_def)
  have put: "fst (dest_PutBlob store_dest (bytes_stream ''abc'') ?info True [])
      = \<lparr>p_read = 4, p_info = ?info, p_err = None\<rparr>"
    by (simp add: store_dest_def bytes_stream_def)
  have absent: "\<not> False" by simp
  have dirs: "[''c0''] = [] @ ''c0'' # []" by simp
  have hyps: "\<not> False \<and> [''c0''] = [] @ ''c0'' # [] \<and>
      (\<forall>p \<in> set []. \<forall>c \<in> set [False, True].
         \<exists>e. fst (os_Open (Join quiet p (makeFilename (Digest ?info) c)) ?w) = (None, Some e)) \<and>
      [False, True] = [False] @ True # [] \<and>
      (\<forall>c' \<in> set [False]. \<exists>e. fst (os_Open (Join quiet ''c0'' (makeFilename (Digest ?info) c')) ?w) = (None, Some e)) \<and>
      fst (os_Open (Join quiet ''c0'' (makeFilename (Digest ?info) True)) ?w) = (Some (bytes_stream ''abc''), None)"
    using absent dirs before split here opens by blast
  note step = ReapplyBlob_three_steps [OF has, where sy = quiet and dirs = "[''c0'']" and dpre = "[]"
      and ?d0.0 = "''c0''" and dpost = "[]" and cpre = "[False]" and c = True and cpost = "[]"
      and f = "bytes_stream ''abc''", THEN conjunct2, THEN conjunct1, THEN mp, OF hyps]
  have "fst (ReapplyBlob quiet store_dest [''c0''] ?info ?w)
      = (p_info (fst (dest_PutBlob store_dest (bytes_stream ''abc'') ?info True [])),
         p_err (fst (dest_PutBlob store_dest (bytes_stream ''abc'') ?info True []))) \<and>
    events_since ?w (snd (ReapplyBlob quiet store_dest [''c0''] ?info ?w))
      = [EvInner (HasBlobCall ?info) None] @
        concat (map (\<lambda>p. map (\<lambda>c. EvOpen (Join quiet p (makeFilename (Digest ?info) c))) [False, True]) []) @
        map (\<lambda>c. EvOpen (Join quiet ''c0'' (makeFilename (Digest ?info) c))) ([False] @ [True]) @
        [EvInner (PutBlobCall (bytes_stream ''abc'') ?info True)
           (p_err (fst (dest_PutBlob store_dest (bytes_stream ''abc'') ?info True []))),
         EvClose (Join quiet ''c0'' (makeFilename (Digest ?info) True))]"
    by (rule step)
  then show ?thesis
    using has plain cfg by (simp add: put quiet_def unix_Join_def makeFilename_def)
qed

subsection \<open>C6: GetManifest and the cache\<close>

text \<open>
  C6. Without an instance digest GetManifest makes one call, the wrapped source's
  GetManifest, and no call on the file system. With an instance digest the
  directories are read in order under the plain digest name; at the first file that
  is read, the call returns its bytes with the MIME type guessed from those bytes;
  when the file is not found in any directory the call returns what the wrapped
  source's GetManifest returns. No execution of GetManifest changes a file or makes
  a call that could.
\<close>

theorem GetManifest_cache_gating:
  "fst (GetManifest sy s dirs None w) = fst (src_GetManifest s None (inner w)) \<and>
   events_since w (snd (GetManifest sy s dirs None w))
     = [EvInner (GetManifestCall None) (snd (snd (fst (src_GetManifest s None (inner w)))))] \<and>
   ((\<forall>p \<in> set pre. IsNotExist (snd (fst (ReadFile (Join sy p (makeFilename dg False)) w)))) \<and>
    fst (ReadFile (Join sy d (makeFilename dg False)) w) = (b, None) \<longrightarrow>
      fst (GetManifest sy s (pre @ d # post) (Some dg) w) = (b, GuessMIMEType sy b, None) \<and>
      events_since w (snd (GetManifest sy s (pre @ d # post) (Some dg) w))
        = map (\<lambda>p. EvReadFile (Join sy p (makeFilename dg False))) (pre @ [d])) \<and>
   ((\<forall>p \<in> set dirs. IsNotExist (snd (fst (ReadFile (Join sy p (makeFilename dg False)) w)))) \<longrightarrow>
      fst (GetManifest sy s dirs (Some dg) w) = fst (src_GetManifest s (Some dg) (inner w)) \<and>
      events_since w (snd (GetManifest sy s dirs (Some dg) w))
        = map (\<lambda>p. EvReadFile (Join sy p (makeFilename dg False))) dirs @
          [EvInner (GetManifestCall (Some dg)) (snd (snd (fst (src_GetManifest s (Some dg) (inner w)))))]) \<and>
   files (snd (GetManifest sy s dirs instanceDigest w)) = files w \<and>
   (\<forall>e \<in> set (events_since w (snd (GetManifest sy s dirs instanceDigest w))). \<not> changes_files e)"
proof -
  have a: "fst (GetManifest sy s dirs None w) = fst (src_GetManifest s None (inner w)) \<and>
     events_since w (snd (GetManifest sy s dirs None w))
       = [EvInner (GetManifestCall None) (snd (snd (fst (src_GetManifest s None (inner w)))))]"
    using source_GetManifest_frame [of s None w]
    by (simp add: GetManifest_def events_since_def)
  have b: "fst (GetManifest sy s (pre @ d # post) (Some dg) w) = (b, GuessMIMEType sy b, None) \<and>
      events_since w (snd (GetManifest sy s (pre @ d # post) (Some dg) w))
        = map (\<lambda>p. EvReadFile (Join sy p (makeFilename dg False))) (pre @ [d])"
    if h: "\<forall>p \<in> set pre. IsNotExist (snd (fst (ReadFile (Join sy p (makeFilename dg False)) w)))"
      "fst (ReadFile (Join sy d (makeFilename dg False)) w) = (b, None)"
    using GetManifest_dirs_hit [OF h, of post "[]"]
    by (simp add: GetManifest_def events_since_def)
  have c: "fst (GetManifest sy s dirs (Some dg) w) = fst (src_GetManifest s (Some dg) (inner w)) \<and>
      events_since w (snd (GetManifest sy s dirs (Some dg) w))
        = map (\<lambda>p. EvReadFile (Join sy p (makeFilename dg False))) dirs @
          [EvInner (GetManifestCall (Some dg)) (snd (snd (fst (src_GetManifest s (Some dg) (inner w)))))]"
    if h: "\<forall>p \<in> set dirs. IsNotExist (snd (fst (ReadFile (Join sy p (makeFilename dg False)) w)))"
  proof -
    let ?w1 = "w\<lparr>trace := trace w @ map (\<lambda>p. EvReadFile (Join sy p (makeFilename dg False))) dirs\<rparr>"
    have "GetManifest_dirs sy dg dirs w = (None, ?w1)"
      using GetManifest_dirs_miss [OF h, of "[]"] by simp
    then have "GetManifest sy s dirs (Some dg) w = source_GetManifest s (Some dg) ?w1"
      by (simp add: GetManifest_def)
    then show ?thesis
      using source_GetManifest_frame [of s "Some dg" ?w1]
      by (simp add: events_since_def)
  qed
  from a b c GetManifest_frame [of sy s dirs instanceDigest w] show ?thesis
    by blast
qed

text \<open>
  The hypotheses hold for a manifest cached in the second of two directories, and for
  a manifest that is in no directory.
\<close>

theorem GetManifest_cache_gating_witness:
  "IsNotExist (snd (fst (ReadFile (Join quiet ''c0'' (makeFilename ''M'' False))
      (world0 [(''c1/M'', File ''{}'')] [(''manifest'', ''[]'')])))) \<and>
   fst (ReadFile (Join quiet ''c1'' (makeFilename ''M'' False))
      (world0 [(''c1/M'', File ''{}'')] [(''manifest'', ''[]'')])) = (''{}'', None) \<and>
   fst (GetManifest quiet store_src [''c0'', ''c1''] (Some ''M'')
      (world0 [(''c1/M'', File ''{}'')] [(''manifest'', ''[]'')])) = (''{}'', ''application/json'', None) \<and>
   events_since (world0 [(''c1/M'', File ''{}'')] [(''manifest'', ''[]'')])
     (snd (GetManifest quiet store_src [''c0'', ''c1''] (Some ''M'')
        (world0 [(''c1/M'', File ''{}'')] [(''manifest'', ''[]'')])))
     = [EvReadFile ''c0/M'', EvReadFile ''c1/M''] \<and>
   fst (GetManifest quiet store_src [''c0''] (Some ''M'')
      (world0 [(''c1/M'', File ''{}'')] [(''manifest'', ''[]'')])) = (''[]'', ''application/json'', None) \<and>
   events_since (world0 [(''c1/M'', File ''{}'')] [(''manifest'', ''[]'')])
     (snd (GetManifest quiet store_src [''c0''] (Some ''M'')
        (world0 [(''c1/M'', File ''{}'')] [(''manifest'', ''[]'')])))
     = [EvReadFile ''c0/M'', EvInner (GetManifestCall (Some ''M'')) None]"
proof -
  let ?w = "world0 [(''c1/M'', File ''{}'')] [(''manifest'', ''[]'')]"
  have miss: "IsNotExist (snd (fst (ReadFile (Join quiet ''c0'' (makeFilename ''M'' False)) ?w)))"
    by (simp add: ReadFile_def quiet_def unix_Join_def makeFilename_def world0_def IsNotExist_def)
  have hit: "fst (ReadFile (Join quiet ''c1'' (makeFilename ''M'' False)) ?w) = (''{}'', None)"
    by (simp add: ReadFile_def quiet_def unix_Join_def makeFilename_def world0_def File_def bytes_stream_def)
  have pre: "\<forall>p \<in> set [''c0'']. IsNotExist (snd (fst (ReadFile (Join quiet p (makeFilename ''M'' False)) ?w)))"
    using miss by simp
  have src: "fst (src_GetManifest store_src (Some ''M'') (inner ?w)) = (''[]'', ''application/json'', None)"
    by (simp add: store_src_def world0_def)
  have mime: "GuessMIMEType quiet ''{}'' = ''application/json''"
    by (simp add: quiet_def)
  from GetManifest_cache_gating [where sy = quiet and s = store_src and w = ?w and dg = "''M''"
      and pre = "[''c0'']" and d = "''c1''" and post = "[]" and b = "''{}''" and dirs = "[''c0'']"]
    pre hit
  have "fst (GetManifest quiet store_src ([''c0''] @ ''c1'' # []) (Some ''M'') ?w)
          = (''{}'', GuessMIMEType quiet ''{}'', None) \<and>
        events_since ?w (snd (GetManifest quiet store_src ([''c0''] @ ''c1'' # []) (Some ''M'') ?w))
          = map (\<lambda>p. EvReadFile (Join quiet p (makeFilename ''M'' False))) ([''c0''] @ [''c1'']) \<and>
        fst (GetManifest quiet store_src [''c0''] (Some ''M'') ?w)
          = fst (src_GetManifest store_src (Some ''M'') (inner ?w)) \<and>
        events_since ?w (snd (GetManifest quiet store_src [''c0''] (Some ''M'') ?w))
          = map (\<lambda>p. EvReadFile (Join quiet p (makeFilename ''M'' False))) [''c0''] @
            [EvInner (GetManifestCall (Some ''M'')) (snd (snd (fst (src_GetManifest store_src (Some ''M'') (inner ?w)))))]"
    by blast
  then show ?thesis
    using miss hit by (simp add: src mime quiet_def unix_Join_def makeFilename_def)
qed

subsection \<open>C10: a cache entry that vanishes under GetBlob\<close>

text \<open>
  C10. Let HasBlob report the blob present. If every candidate file then fails to
  open with the not-found error, GetBlob returns what the wrapped source's GetBlob
  returns (its error wrapped with context), and that call is the last event. An
  error GetBlob returns is either the error of an open that is not the not-found
  error, or the error of the wrapped source. If the first candidate file whose open
  does not fail with the not-found error fails with another error, GetBlob returns
  no stream, the size -1 and that error wrapped as an error checking for the cache
  file; it opens no later candidate, does not ask the wrapped source and leaves it
  unchanged.
\<close>

theorem GetBlob_vanished_entry:
  assumes present: "fst (HasBlob sy dirs blobinfo w) = (True, sz, None)"
  shows "((\<forall>d \<in> set dirs. \<forall>c \<in> set [False, True].
            fst (os_Open (Join sy d (makeFilename (Digest blobinfo) c)) w) = (None, Some (Errno ENOENT))) \<longrightarrow>
          fst (GetBlob sy s dirs blobinfo w)
            = (case fst (src_GetBlob s blobinfo (inner w)) of
                 (rc, n, err) \<Rightarrow>
                   (rc, n, case err of
                             None \<Rightarrow> None
                           | Some e \<Rightarrow> Some (Wrapped ''error reading blob from source image %q'' [] e))) \<and>
          last (trace (snd (GetBlob sy s dirs blobinfo w)))
            = EvInner (GetBlobCall blobinfo) (snd (snd (fst (src_GetBlob s blobinfo (inner w)))))) \<and>
         (\<forall>e. snd (snd (fst (GetBlob sy s dirs blobinfo w))) = Some e \<longrightarrow>
            (\<exists>p x. e = Wrapped ''error checking for cache file %q'' [p] (Errno x) \<and> x \<noteq> ENOENT) \<or>
            (\<exists>e'. e = Wrapped ''error reading blob from source image %q'' [] e' \<and>
                  snd (snd (fst (src_GetBlob s blobinfo (inner w)))) = Some e')) \<and>
         (\<forall>dpre d0 dpost cpre c cpost x.
            dirs = dpre @ d0 # dpost \<and>
            (\<forall>p \<in> set dpre. \<forall>c' \<in> set [False, True].
               fst (os_Open (Join sy p (makeFilename (Digest blobinfo) c')) w) = (None, Some (Errno ENOENT))) \<and>
            [False, True] = cpre @ c # cpost \<and>
            (\<forall>c' \<in> set cpre.
               fst (os_Open (Join sy d0 (makeFilename (Digest blobinfo) c')) w) = (None, Some (Errno ENOENT))) \<and>
            fst (os_Open (Join sy d0 (makeFilename (Digest blobinfo) c)) w) = (None, Some (Errno x)) \<and>
            x \<noteq> ENOENT \<longrightarrow>
            fst (GetBlob sy s dirs blobinfo w)
              = (None, -1, Some (Wrapped ''error checking for cache file %q''
                                   [Join sy d0 (Join sy d0 (makeFilename (Digest blobinfo) c))] (Errno x))) \<and>
            events_since (snd (HasBlob sy dirs blobinfo w)) (snd (GetBlob sy s dirs blobinfo w))
              = concat (map (\<lambda>p. map (\<lambda>c. EvOpen (Join sy p (makeFilename (Digest blobinfo) c))) [False, True]) dpre) @
                map (\<lambda>c. EvOpen (Join sy d0 (makeFilename (Digest blobinfo) c))) (cpre @ [c]) \<and>
            (\<forall>cl r. EvInner cl r \<notin> set (events_since w (snd (GetBlob sy s dirs blobinfo w)))) \<and>
            inner (snd (GetBlob sy s dirs blobinfo w)) = inner w)"
proof -
  obtain tr where w1: "snd (HasBlob sy dirs blobinfo w) = w\<lparr>trace := trace w @ tr\<rparr>"
    and stats: "\<forall>e \<in> set tr. \<exists>n. e = EvStat n"
    using HasBlob_stats by blast
  let ?w1 = "w\<lparr>trace := trace w @ tr\<rparr>"
  have h: "HasBlob sy dirs blobinfo w = ((True, sz, None), ?w1)"
    using present w1 by (simp add: prod_eq_iff)
  obtain rc n err where src: "fst (src_GetBlob s blobinfo (inner w)) = (rc, n, err)"
    by (cases "fst (src_GetBlob s blobinfo (inner w))")
  have fall: "fst (GetBlob sy s dirs blobinfo w)
        = (rc, n, case err of None \<Rightarrow> None
                  | Some e \<Rightarrow> Some (Wrapped ''error reading blob from source image %q'' [] e)) \<and>
      last (trace (snd (GetBlob sy s dirs blobinfo w))) = EvInner (GetBlobCall blobinfo) err"
    if miss: "GetBlob_dirs sy blobinfo sz dirs ?w1 = (None, w2)" and i2: "inner w2 = inner w" for w2
  proof -
    obtain w3 where c: "source_GetBlob s blobinfo w2 = ((rc, n, err), w3)"
      using source_GetBlob_frame [of s blobinfo w2] src i2
      by (cases "source_GetBlob s blobinfo w2") simp
    have t3: "trace w3 = trace w2 @ [EvInner (GetBlobCall blobinfo) err]"
      using source_GetBlob_frame [of s blobinfo w2] src i2 c by simp
    have "GetBlob sy s dirs blobinfo w
        = (if err \<noteq> None then ((rc, n, Wrapf err ''error reading blob from source image %q'' []), w3)
           else ((rc, n, None), w3))"
      by (simp add: GetBlob_def h miss c)
    then show ?thesis
      using t3 by (cases err) (simp_all add: Wrapf_def)
  qed
  have 1: "fst (GetBlob sy s dirs blobinfo w)
        = (rc, n, case err of None \<Rightarrow> None
                  | Some e \<Rightarrow> Some (Wrapped ''error reading blob from source image %q'' [] e)) \<and>
      last (trace (snd (GetBlob sy s dirs blobinfo w))) = EvInner (GetBlobCall blobinfo) err"
    if gone: "\<forall>d \<in> set dirs. \<forall>c \<in> set [False, True].
            fst (os_Open (Join sy d (makeFilename (Digest blobinfo) c)) w) = (None, Some (Errno ENOENT))"
    using fall [OF GetBlob_dirs_miss [OF gone, where sz = sz and es = tr]] by simp
  have 2: "(\<exists>p x. e = Wrapped ''error checking for cache file %q'' [p] (Errno x) \<and> x \<noteq> ENOENT) \<or>
            (\<exists>e'. e = Wrapped ''error reading blob from source image %q'' [] e' \<and> err = Some e')"
    if e: "snd (snd (fst (GetBlob sy s dirs blobinfo w))) = Some e" for e
  proof -
    obtain r w2 where g: "GetBlob_dirs sy blobinfo sz dirs ?w1 = (r, w2)"
      by (cases "GetBlob_dirs sy blobinfo sz dirs ?w1")
    show ?thesis
    proof (cases r)
      case None
      have "inner (snd (GetBlob_dirs sy blobinfo sz dirs ?w1)) = inner ?w1"
        by (rule GetBlob_dirs_inner)
      then have "inner w2 = inner w" by (simp add: g)
      with fall [of w2] g None e show ?thesis
        by (cases err) simp_all
    next
      case (Some a)
      obtain f m x where a: "a = (f, m, x)" by (cases a)
      have "fst (GetBlob sy s dirs blobinfo w) = (f, m, x)"
        by (simp add: GetBlob_def h g Some a)
      with e have x: "x = Some e" by simp
      from GetBlob_dirs_result [OF g [unfolded Some a]] x show ?thesis
        by auto
    qed
  qed
  have 3: "fst (GetBlob sy s dirs blobinfo w)
              = (None, -1, Some (Wrapped ''error checking for cache file %q''
                                   [Join sy d0 (Join sy d0 (makeFilename (Digest blobinfo) c))] (Errno x))) \<and>
            events_since (snd (HasBlob sy dirs blobinfo w)) (snd (GetBlob sy s dirs blobinfo w))
              = concat (map (\<lambda>p. map (\<lambda>c. EvOpen (Join sy p (makeFilename (Digest blobinfo) c))) [False, True]) dpre) @
                map (\<lambda>c. EvOpen (Join sy d0 (makeFilename (Digest blobinfo) c))) (cpre @ [c]) \<and>
            (\<forall>cl r. EvInner cl r \<notin> set (events_since w (snd (GetBlob sy s dirs blobinfo w)))) \<and>
            inner (snd (GetBlob sy s dirs blobinfo w)) = inner w"
    if d: "dirs = dpre @ d0 # dpost"
      and pre: "\<forall>p \<in> set dpre. \<forall>c' \<in> set [False, True].
               fst (os_Open (Join sy p (makeFilename (Digest blobinfo) c')) w) = (None, Some (Errno ENOENT))"
      and cs: "[False, True] = cpre @ c # cpost"
      and cpre: "\<forall>c' \<in> set cpre.
               fst (os_Open (Join sy d0 (makeFilename (Digest blobinfo) c')) w) = (None, Some (Errno ENOENT))"
      and bad: "fst (os_Open (Join sy d0 (makeFilename (Digest blobinfo) c)) w) = (None, Some (Errno x))"
      and x: "x \<noteq> ENOENT"
    for dpre d0 dpost cpre c cpost x
  proof -
    let ?opens = "concat (map (\<lambda>p. map (\<lambda>c. EvOpen (Join sy p (makeFilename (Digest blobinfo) c))) [False, True]) dpre) @
                map (\<lambda>c. EvOpen (Join sy d0 (makeFilename (Digest blobinfo) c))) (cpre @ [c])"
    let ?e = "Wrapped ''error checking for cache file %q''
                [Join sy d0 (Join sy d0 (makeFilename (Digest blobinfo) c))] (Errno x)"
    have scan: "GetBlob_dirs sy blobinfo sz dirs ?w1
        = (Some (None, -1, Some ?e), w\<lparr>trace := trace w @ tr @ ?opens\<rparr>)"
      unfolding d by (rule GetBlob_dirs_error [OF pre cs cpre bad x])
    have g: "GetBlob sy s dirs blobinfo w = ((None, -1, Some ?e), w\<lparr>trace := trace w @ tr @ ?opens\<rparr>)"
      by (simp add: GetBlob_def h scan)
    have ev: "events_since w (snd (GetBlob sy s dirs blobinfo w)) = tr @ ?opens"
      by (simp add: g)
    have ev1: "events_since (snd (HasBlob sy dirs blobinfo w)) (snd (GetBlob sy s dirs blobinfo w)) = ?opens"
      by (simp add: g w1)
    have no: "EvInner cl r \<notin> set (tr @ ?opens)" for cl r
      using stats by auto
    show ?thesis
      unfolding ev ev1 using no by (simp add: g)
  qed
  from 1 2 have 12: "((\<forall>d \<in> set dirs. \<forall>c \<in> set [False, True].
            fst (os_Open (Join sy d (makeFilename (Digest blobinfo) c)) w) = (None, Some (Errno ENOENT))) \<longrightarrow>
          fst (GetBlob sy s dirs blobinfo w)
            = (case fst (src_GetBlob s blobinfo (inner w)) of
                 (rc, n, err) \<Rightarrow>
                   (rc, n, case err of
                             None \<Rightarrow> None
                           | Some e \<Rightarrow> Some (Wrapped ''error reading blob from source image %q'' [] e))) \<and>
          last (trace (snd (GetBlob sy s dirs blobinfo w)))
            = EvInner (GetBlobCall blobinfo) (snd (snd (fst (src_GetBlob s blobinfo (inner w)))))) \<and>
         (\<forall>e. snd (snd (fst (GetBlob sy s dirs blobinfo w))) = Some e \<longrightarrow>
            (\<exists>p x. e = Wrapped ''error checking for cache file %q'' [p] (Errno x) \<and> x \<noteq> ENOENT) \<or>
            (\<exists>e'. e = Wrapped ''error reading blob from source image %q'' [] e' \<and>
                  snd (snd (fst (src_GetBlob s blobinfo (inner w)))) = Some e'))"
    by (simp add: src)
  from 3 have 3: "\<forall>dpre d0 dpost cpre c cpost x.
            dirs = dpre @ d0 # dpost \<and>
            (\<forall>p \<in> set dpre. \<forall>c' \<in> set [False, True].
               fst (os_Open (Join sy p (makeFilename (Digest blobinfo) c')) w) = (None, Some (Errno ENOENT))) \<and>
            [False, True] = cpre @ c # cpost \<and>
            (\<forall>c' \<in> set cpre.
               fst (os_Open (Join sy d0 (makeFilename (Digest blobinfo) c')) w) = (None, Some (Errno ENOENT))) \<and>
            fst (os_Open (Join sy d0 (makeFilename (Digest blobinfo) c)) w) = (None, Some (Errno x)) \<and>
            x \<noteq> ENOENT \<longrightarrow>
            fst (GetBlob sy s dirs blobinfo w)
              = (None, -1, Some (Wrapped ''error checking for cache file %q''
                                   [Join sy d0 (Join sy d0 (makeFilename (Digest blobinfo) c))] (Errno x))) \<and>
            events_since (snd (HasBlob sy dirs blobinfo w)) (snd (GetBlob sy s dirs blobinfo w))
              = concat (map (\<lambda>p. map (\<lambda>c. EvOpen (Join sy p (makeFilename (Digest blobinfo) c))) [False, True]) dpre) @
                map (\<lambda>c. EvOpen (Join sy d0 (makeFilename (Digest blobinfo) c))) (cpre @ [c]) \<and>
            (\<forall>cl r. EvInner cl r \<notin> set (events_since w (snd (GetBlob sy s dirs blobinfo w)))) \<and>
            inner (snd (GetBlob sy s dirs blobinfo w)) = inner w"
    by blast
  from 12 3 show ?thesis
    by (rule conjI [THEN iffD1 [OF conj_assoc]])
qed


text \<open>
  The hypotheses hold for a file that answers \<^verbatim>\<open>os.Stat\<close> with its size and is gone
  when \<^verbatim>\<open>os.Open\<close> comes, and for a file that answers \<^verbatim>\<open>os.Stat\<close> with its size and
  may not be opened.
\<close>

theorem GetBlob_vanished_entry_witness:
  "fst (HasBlob quiet [''c0''] \<lparr>Digest = ''D'', Size = -1\<rparr>
      (world0 [(''c0/D'', Node (Inr 3) (Inl ENOENT))] [(''D'', ''abc'')])) = (True, 3, None) \<and>
   fst (os_Open ''c0/D'' (world0 [(''c0/D'', Node (Inr 3) (Inl ENOENT))] [(''D'', ''abc'')]))
     = (None, Some (Errno ENOENT)) \<and>
   fst (GetBlob quiet store_src [''c0''] \<lparr>Digest = ''D'', Size = -1\<rparr>
      (world0 [(''c0/D'', Node (Inr 3) (Inl ENOENT))] [(''D'', ''abc'')]))
     = (Some (bytes_stream ''abc''), 3, None) \<and>
   fst (HasBlob quiet [''c0''] \<lparr>Digest = ''D'', Size = -1\<rparr>
      (world0 [(''c0/D'', Node (Inr 3) (Inl EACCES))] [(''D'', ''abc'')])) = (True, 3, None) \<and>
   fst (os_Open ''c0/D'' (world0 [(''c0/D'', Node (Inr 3) (Inl EACCES))] [(''D'', ''abc'')]))
     = (None, Some (Errno EACCES)) \<and>
   fst (GetBlob quiet store_src [''c0''] \<lparr>Digest = ''D'', Size = -1\<rparr>
      (world0 [(''c0/D'', Node (Inr 3) (Inl EACCES))] [(''D'', ''abc'')]))
     = (None, -1, Some (Wrapped ''error checking for cache file %q'' [''c0/c0/D''] (Errno EACCES))) \<and>
   events_since
      (snd (HasBlob quiet [''c0''] \<lparr>Digest = ''D'', Size = -1\<rparr>
         (world0 [(''c0/D'', Node (Inr 3) (Inl EACCES))] [(''D'', ''abc'')])))
      (snd (GetBlob quiet store_src [''c0''] \<lparr>Digest = ''D'', Size = -1\<rparr>
         (world0 [(''c0/D'', Node (Inr 3) (Inl EACCES))] [(''D'', ''abc'')])))
     = [EvOpen ''c0/D'']"
proof -
  let ?w = "world0 [(''c0/D'', Node (Inr 3) (Inl ENOENT))] [(''D'', ''abc'')]"
  let ?v = "world0 [(''c0/D'', Node (Inr 3) (Inl EACCES))] [(''D'', ''abc'')]"
  let ?bi = "\<lparr>Digest = ''D'', Size = -1\<rparr>"
  have present: "fst (HasBlob quiet [''c0''] ?bi ?w) = (True, 3, None)"
    by (simp add: HasBlob_def quiet_def unix_Join_def makeFilename_def os_Stat_def world0_def Let_def)
  have plain: "fst (os_Open ''c0/D'' ?w) = (None, Some (Errno ENOENT))"
    by (simp add: os_Open_def world0_def)
  have gone: "\<forall>d \<in> set [''c0'']. \<forall>c \<in> set [False, True].
      fst (os_Open (Join quiet d (makeFilename (Digest ?bi) c)) ?w) = (None, Some (Errno ENOENT))"
    by (simp add: os_Open_def quiet_def unix_Join_def makeFilename_def world0_def)
  have src: "fst (src_GetBlob store_src ?bi (inner ?w)) = (Some (bytes_stream ''abc''), 3, None)"
    by (simp add: store_src_def world0_def)
  from GetBlob_vanished_entry [OF present, where s = store_src] gone
  have "fst (GetBlob quiet store_src [''c0''] ?bi ?w)
      = (case fst (src_GetBlob store_src ?bi (inner ?w)) of
                 (rc, n, err) \<Rightarrow>
                   (rc, n, case err of
                             None \<Rightarrow> None
                           | Some e \<Rightarrow> Some (Wrapped ''error reading blob from source image %q'' [] e)))"
    by blast
  then have fallback: "fst (GetBlob quiet store_src [''c0''] ?bi ?w) = (Some (bytes_stream ''abc''), 3, None)"
    by (simp add: src)
  have present': "fst (HasBlob quiet [''c0''] ?bi ?v) = (True, 3, None)"
    by (simp add: HasBlob_def quiet_def unix_Join_def makeFilename_def os_Stat_def world0_def Let_def)
  have plain': "fst (os_Open ''c0/D'' ?v) = (None, Some (Errno EACCES))"
    by (simp add: os_Open_def world0_def)
  have bad: "fst (os_Open (Join quiet ''c0'' (makeFilename (Digest ?bi) False)) ?v) = (None, Some (Errno EACCES))"
    by (simp add: os_Open_def quiet_def unix_Join_def makeFilename_def world0_def)
  have hyps: "[''c0''] = [] @ ''c0'' # [] \<and>
      (\<forall>p \<in> set []. \<forall>c' \<in> set [False, True].
         fst (os_Open (Join quiet p (makeFilename (Digest ?bi) c')) ?v) = (None, Some (Errno ENOENT))) \<and>
      [False, True] = [] @ False # [True] \<and>
      (\<forall>c' \<in> set [].
         fst (os_Open (Join quiet ''c0'' (makeFilename (Digest ?bi) c')) ?v) = (None, Some (Errno ENOENT))) \<and>
      fst (os_Open (Join quiet ''c0'' (makeFilename (Digest ?bi) False)) ?v) = (None, Some (Errno EACCES)) \<and>
      EACCES \<noteq> ENOENT"
    using bad by simp
  note third = GetBlob_vanished_entry [OF present', where s = store_src,
      THEN conjunct2, THEN conjunct2, THEN spec, THEN spec, THEN spec, THEN spec, THEN spec, THEN spec,
      THEN spec, THEN mp, OF hyps]
  have err: "fst (GetBlob quiet store_src [''c0''] ?bi ?v)
      = (None, -1, Some (Wrapped ''error checking for cache file %q'' [''c0/c0/D''] (Errno EACCES)))"
    using third [THEN conjunct1] by (simp add: quiet_def unix_Join_def makeFilename_def)
  have ev: "events_since (snd (HasBlob quiet [''c0''] ?bi ?v)) (snd (GetBlob quiet store_src [''c0''] ?bi ?v))
      = [EvOpen ''c0/D'']"
    using third [THEN conjunct2, THEN conjunct1] by (simp add: quiet_def unix_Join_def makeFilename_def)
  show ?thesis
    by (intro conjI present plain fallback present' plain' err ev)
qed

subsection \<open>C7: the directory list of a reference\<close>

text \<open>
  C7. NewBlobCache returns an error and no reference for every empty directory list.
  For every reference it does return (from a slice that is valid on the heap), the
  directories of the reference are the elements of the caller's slice at the time of
  the call, they are not empty, and they lie in an array allocated by the call, so
  that no assignment through the caller's slice changes them or what HasBlob does.
  Every call of Directories returns the directories in an array of its own: an
  assignment through the returned slice changes neither the directories of the
  reference nor what HasBlob does, and the next call returns another array with
  the same directories.
\<close>

theorem NewBlobCache_copies_directories:
  "(sl_len dirs = 0 \<longrightarrow>
      NewBlobCache ref dirs h
        = Inl (Failure ''error building cache: no cache directory specified for %q'' [ref])) \<and>
   (NewBlobCache ref dirs h = Inr (r, h1) \<and> valid_slice h dirs \<longrightarrow>
      cache_dirs h1 r = slice_elems h dirs \<and> cache_dirs h1 r \<noteq> [] \<and>
      sl_array (directories r) = next_array h \<and> sl_array (directories r) \<noteq> sl_array dirs \<and>
      (\<forall>i v h2. slice_store dirs i v h1 = Some h2 \<longrightarrow>
         cache_dirs h2 r = cache_dirs h1 r \<and>
         reference_HasBlob sy h2 r blobinfo w = reference_HasBlob sy h1 r blobinfo w)) \<and>
   (Directories r h1 = (s, h2) \<and> sl_array (directories r) < next_array h1 \<longrightarrow>
      slice_elems h2 s = cache_dirs h1 r \<and> cache_dirs h2 r = cache_dirs h1 r \<and>
      sl_array s \<noteq> sl_array (directories r) \<and>
      (\<forall>i v h3. slice_store s i v h2 = Some h3 \<longrightarrow>
         cache_dirs h3 r = cache_dirs h2 r \<and>
         reference_HasBlob sy h3 r blobinfo w = reference_HasBlob sy h2 r blobinfo w) \<and>
      (\<forall>s' h3. Directories r h2 = (s', h3) \<longrightarrow>
         sl_array s' \<noteq> sl_array s \<and> slice_elems h3 s' = cache_dirs h1 r))"
proof -
  have 1: "NewBlobCache ref dirs h
        = Inl (Failure ''error building cache: no cache directory specified for %q'' [ref])"
    if "sl_len dirs = 0"
    using that by (simp add: NewBlobCache_def)
  have 2: "cache_dirs h1 r = slice_elems h dirs \<and> cache_dirs h1 r \<noteq> [] \<and>
      sl_array (directories r) = next_array h \<and> sl_array (directories r) \<noteq> sl_array dirs \<and>
      (\<forall>i v h2. slice_store dirs i v h1 = Some h2 \<longrightarrow>
         cache_dirs h2 r = cache_dirs h1 r \<and>
         reference_HasBlob sy h2 r blobinfo w = reference_HasBlob sy h1 r blobinfo w)"
    if new: "NewBlobCache ref dirs h = Inr (r, h1)" and valid: "valid_slice h dirs"
  proof -
    have len: "sl_len dirs \<noteq> 0"
      using new by (auto simp add: NewBlobCache_def split: if_splits)
    obtain s where a: "append_fresh dirs h = (s, h1)" and r: "r = \<lparr>reference = ref, directories = s\<rparr>"
      using new len by (cases "append_fresh dirs h") (auto simp add: NewBlobCache_def)
    note f = append_fresh_elems [OF a]
    have copy: "cache_dirs h1 r = slice_elems h dirs"
      using f(3) by (simp add: cache_dirs_def r)
    have "length (slice_elems h dirs) = sl_len dirs"
      using valid by (auto simp add: slice_elems_def valid_slice_def)
    then have ne: "cache_dirs h1 r \<noteq> []"
      using len copy by auto
    have at: "sl_array (directories r) = next_array h"
      using f(1) by (simp add: r)
    have apart: "sl_array (directories r) \<noteq> sl_array dirs"
      using valid at by (simp add: valid_slice_def)
    have "cache_dirs h2 r = cache_dirs h1 r \<and>
         reference_HasBlob sy h2 r blobinfo w = reference_HasBlob sy h1 r blobinfo w"
      if "slice_store dirs i v h1 = Some h2" for i v h2
    proof -
      have "h2 = array_store (sl_array dirs) (sl_off dirs + i) v h1"
        using that by (simp add: slice_store_def split: if_splits)
      then have "cache_dirs h2 r = cache_dirs h1 r"
        using apart by (simp add: cache_dirs_array_store)
      then show ?thesis
        by (simp add: reference_HasBlob_def)
    qed
    with copy ne at apart show ?thesis by blast
  qed
  have 3: "slice_elems h2 s = cache_dirs h1 r \<and> cache_dirs h2 r = cache_dirs h1 r \<and>
      sl_array s \<noteq> sl_array (directories r) \<and>
      (\<forall>i v h3. slice_store s i v h2 = Some h3 \<longrightarrow>
         cache_dirs h3 r = cache_dirs h2 r \<and>
         reference_HasBlob sy h3 r blobinfo w = reference_HasBlob sy h2 r blobinfo w) \<and>
      (\<forall>s' h3. Directories r h2 = (s', h3) \<longrightarrow>
         sl_array s' \<noteq> sl_array s \<and> slice_elems h3 s' = cache_dirs h1 r)"
    if dirs: "Directories r h1 = (s, h2)" and alloc: "sl_array (directories r) < next_array h1"
  proof -
    have a: "append_fresh (directories r) h1 = (s, h2)"
      using dirs by (simp add: Directories_def)
    note f = append_fresh_elems [OF a]
    have copy: "slice_elems h2 s = cache_dirs h1 r"
      using f(3) by (simp add: cache_dirs_def)
    have same: "cache_dirs h2 r = cache_dirs h1 r"
      using f(4) [OF alloc] by (simp add: cache_dirs_def)
    have apart: "sl_array s \<noteq> sl_array (directories r)"
      using f(1) alloc by simp
    have st: "cache_dirs h3 r = cache_dirs h2 r \<and>
         reference_HasBlob sy h3 r blobinfo w = reference_HasBlob sy h2 r blobinfo w"
      if "slice_store s i v h2 = Some h3" for i v h3
    proof -
      have "h3 = array_store (sl_array s) (sl_off s + i) v h2"
        using that by (simp add: slice_store_def split: if_splits)
      then have "cache_dirs h3 r = cache_dirs h2 r"
        using apart by (simp add: cache_dirs_array_store)
      then show ?thesis
        by (simp add: reference_HasBlob_def)
    qed
    have again: "sl_array s' \<noteq> sl_array s \<and> slice_elems h3 s' = cache_dirs h1 r"
      if "Directories r h2 = (s', h3)" for s' h3
    proof -
      have b: "append_fresh (directories r) h2 = (s', h3)"
        using that by (simp add: Directories_def)
      note g = append_fresh_elems [OF b]
      have "slice_elems h3 s' = cache_dirs h2 r"
        using g(3) by (simp add: cache_dirs_def)
      then show ?thesis
        using g(1) f(1,2) same by simp
    qed
    from copy same apart st again show ?thesis by blast
  qed
  from 1 2 3 show ?thesis by blast
qed

text \<open>
  The hypotheses hold for a list of two directories: after the construction the
  caller overwrites an element of its slice, and an element of the slice that
  Directories returned, and the reference keeps its two directories.
\<close>

theorem NewBlobCache_copies_directories_witness:
  "valid_slice \<lparr>arrays = (\<lambda>a. [])(0 := [''c0'', ''c1'']), next_array = 1\<rparr>
     \<lparr>sl_array = 0, sl_off = 0, sl_len = 2\<rparr> \<and>
   NewBlobCache ''dir:/img'' \<lparr>sl_array = 0, sl_off = 0, sl_len = 0\<rparr>
       \<lparr>arrays = (\<lambda>a. [])(0 := [''c0'', ''c1'']), next_array = 1\<rparr>
     = Inl (Failure ''error building cache: no cache directory specified for %q'' [''dir:/img'']) \<and>
   (case NewBlobCache ''dir:/img'' \<lparr>sl_array = 0, sl_off = 0, sl_len = 2\<rparr>
           \<lparr>arrays = (\<lambda>a. [])(0 := [''c0'', ''c1'']), next_array = 1\<rparr> of
      Inl e \<Rightarrow> False
    | Inr (r, h1) \<Rightarrow>
        cache_dirs h1 r = [''c0'', ''c1''] \<and>
        cache_dirs (the (slice_store \<lparr>sl_array = 0, sl_off = 0, sl_len = 2\<rparr> 0 ''evil'' h1)) r
          = [''c0'', ''c1''] \<and>
        slice_elems (the (slice_store \<lparr>sl_array = 0, sl_off = 0, sl_len = 2\<rparr> 0 ''evil'' h1))
          \<lparr>sl_array = 0, sl_off = 0, sl_len = 2\<rparr> = [''evil'', ''c1''] \<and>
        cache_dirs (the (slice_store (fst (Directories r h1)) 1 ''evil'' (snd (Directories r h1)))) r
          = [''c0'', ''c1''] \<and>
        slice_elems (the (slice_store (fst (Directories r h1)) 1 ''evil'' (snd (Directories r h1))))
          (fst (Directories r h1)) = [''c0'', ''evil''])"
proof -
  let ?h = "\<lparr>arrays = (\<lambda>a. [])(0 := [''c0'', ''c1'']), next_array = 1\<rparr>"
  let ?dirs = "\<lparr>sl_array = 0, sl_off = 0, sl_len = 2\<rparr>"
  let ?none = "\<lparr>sl_array = 0, sl_off = 0, sl_len = 0\<rparr>"
  let ?s = "\<lparr>sl_array = 1, sl_off = 0, sl_len = 2\<rparr>"
  let ?r = "\<lparr>reference = ''dir:/img'', directories = ?s\<rparr>"
  let ?h1 = "?h\<lparr>arrays := (arrays ?h)(next_array ?h := slice_elems ?h ?dirs), next_array := Suc (next_array ?h)\<rparr>"
  let ?h2 = "the (slice_store ?dirs 0 ''evil'' ?h1)"
  let ?s2 = "fst (Directories ?r ?h1)"
  let ?g2 = "snd (Directories ?r ?h1)"
  let ?g3 = "the (slice_store ?s2 1 ''evil'' ?g2)"
  have valid: "valid_slice ?h ?dirs"
    by (simp add: valid_slice_def)
  have empty: "sl_len ?none = 0" by simp
  have new: "NewBlobCache ''dir:/img'' ?dirs ?h = Inr (?r, ?h1)"
    by (simp add: NewBlobCache_def append_fresh_def)
  have st: "slice_store ?dirs 0 ''evil'' ?h1 = Some ?h2"
    by (simp add: slice_store_def)
  have d: "Directories ?r ?h1 = (?s2, ?g2)" by simp
  have alloc: "sl_array (directories ?r) < next_array ?h1" by simp
  have st2: "slice_store ?s2 1 ''evil'' ?g2 = Some ?g3"
    by (simp add: slice_store_def Directories_def append_fresh_def)
  note T = NewBlobCache_copies_directories [where ref = "''dir:/img''" and h = ?h and r = ?r and ?h1.0 = ?h1]
  have a: "NewBlobCache ''dir:/img'' ?none ?h
      = Inl (Failure ''error building cache: no cache directory specified for %q'' [''dir:/img''])"
    using T [where dirs = ?none, THEN conjunct1] empty by blast
  have b: "cache_dirs ?h1 ?r = slice_elems ?h ?dirs \<and> cache_dirs ?h2 ?r = cache_dirs ?h1 ?r"
    using T [where dirs = ?dirs, THEN conjunct2, THEN conjunct1] new valid st by blast
  have c: "cache_dirs ?g2 ?r = cache_dirs ?h1 ?r \<and> cache_dirs ?g3 ?r = cache_dirs ?g2 ?r"
    using T [where s = ?s2 and ?h2.0 = ?g2, THEN conjunct2, THEN conjunct2] d alloc st2 by blast
  have e: "slice_elems ?h ?dirs = [''c0'', ''c1'']"
    by (simp add: slice_elems_def)
  have m1: "slice_elems ?h2 ?dirs = [''evil'', ''c1'']"
    by (simp add: slice_store_def array_store_def slice_elems_def)
  have m2: "slice_elems ?g3 ?s2 = [''c0'', ''evil'']"
    by (simp add: slice_store_def array_store_def slice_elems_def Directories_def append_fresh_def)
  have f1: "cache_dirs ?h1 ?r = [''c0'', ''c1'']"
    using b e by simp
  have f2: "cache_dirs ?h2 ?r = [''c0'', ''c1'']"
    using b e by simp
  have f4: "cache_dirs ?g3 ?r = [''c0'', ''c1'']"
    using c f1 by simp
  show ?thesis
    by (simp only: new sum.case prod.case) (intro conjI valid a f1 f2 m1 f4 m2)
qed

end
